theory Spec2Isabelle
  imports Main "HOL-Library.Word" "HOL-Library.Sublist" "HOL-Library.AList"
begin

section \<open>CLI pre-run (src/cmd/root.go)\<close>

text \<open>
  The package-level variable \<open>config.CommonOptions\<close> and the flag variables of the
  \<open>cmd\<close> package that \<open>preRun\<close> reads. The fields are the ones \<open>init\<close> binds to
  persistent flags.
\<close>

record CommonOptions =
  Insecure :: bool
  InsecureSkipTLSVerify :: bool
  PlainHTTP :: bool
  CachePath :: string
  TempDirectory :: string

record cli_globals =
  commonOptions :: CommonOptions
  LogLevelCLI :: string
  LogFormat :: string
  SkipLogFile :: bool
  NoColor :: bool

datatype cli_error =
    ErrParseLevel string
  | ErrLoggerNew
  | ErrInvalidLogLevel
  | ErrCreateTemp
  | ErrUseLogFile
  | ErrPrintViperConfig

text \<open>
  What \<open>preRun\<close> asks of the cobra command and of the packages it calls
  (\<open>checkVendorOnlyFromPath\<close>, \<open>logger\<close>, \<open>message\<close>, \<open>os\<close>, viper): their answers
  are inputs of the model.
\<close>

record pre_env =
  vendorOnly :: bool
  commandPath :: "string list"
  hasParent :: bool
  parseLevelOk :: "string \<Rightarrow> bool"
  loggerNewOk :: bool
  ciEnv :: bool
  createTempOk :: bool
  useLogFileOk :: bool
  printViperOk :: bool

record MessageCfg =
  Level :: string
  mcSkipLogFile :: bool
  mcNoColor :: bool
  FeatureDisabled :: bool

definition setupLogger :: "pre_env \<Rightarrow> string \<Rightarrow> string \<Rightarrow> bool \<Rightarrow> cli_error option" where
  "setupLogger env level format color =
     (let level' = (if level = [] then ''info'' else level) in
      if \<not> parseLevelOk env level' then Some (ErrParseLevel level')
      else if \<not> loggerNewOk env then Some ErrLoggerNew
      else None)"

definition SetupMessage :: "pre_env \<Rightarrow> MessageCfg \<Rightarrow> cli_error option" where
  "SetupMessage env cfg =
     (if FeatureDisabled cfg then None
      else if Level cfg \<noteq> [] \<and> Level cfg \<notin> set [''error'', ''warn'', ''info'', ''debug'', ''trace'']
        then Some ErrInvalidLogLevel
      else if \<not> mcSkipLogFile cfg then
        (if \<not> createTempOk env then Some ErrCreateTemp
         else if \<not> useLogFileOk env then Some ErrUseLogFile
         else None)
      else None)"

text \<open>Lines 77-81 of \<open>preRun\<close>: the deprecated \<open>--insecure\<close> flag implies the two newer ones.\<close>

definition applyInsecure :: "CommonOptions \<Rightarrow> CommonOptions" where
  "applyInsecure co =
     (if Insecure co then co\<lparr>InsecureSkipTLSVerify := True, PlainHTTP := True\<rparr> else co)"

text \<open>
  \<open>preRun\<close> returns the error (if any) and the globals as it leaves them. The logger and
  message set-up that follows the first step writes to other packages only.
\<close>

definition preRun :: "pre_env \<Rightarrow> cli_globals \<Rightarrow> cli_error option \<times> cli_globals" where
  "preRun env g =
     (let g1 = g\<lparr>commonOptions := applyInsecure (commonOptions g)\<rparr> in
      if vendorOnly env then (None, g1)
      else
        let comps = commandPath env;
            skip0 = SkipLogFile g1;
            skip1 = (if length comps > 1 \<and> comps ! 1 = ''tools'' then True else skip0);
            skip2 = (if length comps > 1 \<and> comps ! 1 = ''version'' then True else skip1);
            skip3 = (if \<not> hasParent env then True else skip2)
        in case setupLogger env (LogLevelCLI g1) (LogFormat g1) (\<not> NoColor g1) of
             Some e \<Rightarrow> (Some e, g1)
           | None \<Rightarrow>
              let legacy = (LogFormat g1 = ''legacy'');
                  disableMessage = (\<not> legacy);
                  skip4 = (if \<not> legacy then True else skip3)
              in case SetupMessage env \<lparr>Level = LogLevelCLI g1, mcSkipLogFile = skip4,
                                         mcNoColor = NoColor g1, FeatureDisabled = disableMessage\<rparr> of
                   Some e \<Rightarrow> (Some e, g1)
                 | None \<Rightarrow> if printViperOk env then (None, g1) else (Some ErrPrintViperConfig, g1))"

section \<open>Package exec\<close>

record Config =
  Print :: bool
  Dir :: string
  Env :: "string list"

definition PrintCfg :: Config where
  "PrintCfg = \<lparr>Print = True, Dir = [], Env = []\<rparr>"

definition emptyConfig :: Config where
  "emptyConfig = \<lparr>Print = False, Dir = [], Env = []\<rparr>"

datatype exec_error =
    ErrCommandRequired
  | ErrStart string
  | ErrCaptureStdout
  | ErrCaptureStderr
  | ErrWait string

text \<open>A started process, as \<open>exec.CommandContext\<close> and \<open>cmd.Start\<close> receive it.\<close>

record process =
  pCommand :: string
  pArgs :: "string list"
  pDir :: string
  pEnv :: "string list"

text \<open>
  The observable effects of the package: what was printed to the terminal and which
  processes were started.
\<close>

record exec_world =
  printed :: "string list"
  started :: "process list"

text \<open>How the operating system answers for a given process.\<close>

record os_env =
  environ :: "string list"
  startErr :: "process \<Rightarrow> string option"
  procStdout :: "process \<Rightarrow> string"
  procStderr :: "process \<Rightarrow> string"
  copyStdoutOk :: "process \<Rightarrow> bool"
  copyStderrOk :: "process \<Rightarrow> bool"
  waitErr :: "process \<Rightarrow> string option"

type_synonym cmd_result = "string \<times> string \<times> exec_error option"

definition CmdWithContext ::
  "os_env \<Rightarrow> Config \<Rightarrow> string \<Rightarrow> string list \<Rightarrow> exec_world \<Rightarrow> cmd_result \<times> exec_world" where
  "CmdWithContext os config command args w =
     (if command = [] then (([], [], Some ErrCommandRequired), w)
      else
        let w1 = (if Print config
                  then w\<lparr>printed := printed w @ [command @ '' '' @ concat args]\<rparr> else w);
            p = \<lparr>pCommand = command, pArgs = args, pDir = Dir config,
                 pEnv = environ os @ Env config\<rparr>
        in case startErr os p of
             Some e \<Rightarrow> (([], [], Some (ErrStart e)), w1)
           | None \<Rightarrow>
              let w2 = w1\<lparr>started := started w1 @ [p]\<rparr> in
              if Print config then
                (let w3 = w2\<lparr>printed := printed w2 @ [procStdout os p, procStderr os p]\<rparr> in
                 if \<not> copyStdoutOk os p then (([], [], Some ErrCaptureStdout), w3)
                 else if \<not> copyStderrOk os p then (([], [], Some ErrCaptureStderr), w3)
                 else ((procStdout os p, procStderr os p, map_option ErrWait (waitErr os p)), w3))
              else (([], [], map_option ErrWait (waitErr os p)), w2))"

definition Cmd :: "os_env \<Rightarrow> string \<Rightarrow> string list \<Rightarrow> exec_world \<Rightarrow> cmd_result \<times> exec_world" where
  "Cmd os command args w = CmdWithContext os emptyConfig command args w"

definition CmdWithPrint ::
  "os_env \<Rightarrow> string \<Rightarrow> string list \<Rightarrow> exec_world \<Rightarrow> exec_error option \<times> exec_world" where
  "CmdWithPrint os command args w =
     (case CmdWithContext os PrintCfg command args w of ((_, _, err), w') \<Rightarrow> (err, w'))"

section \<open>Package images: data\<close>

text \<open>
  \<open>transform.Image\<close>, the parsed form of an image reference. \<open>Pull\<close> and its helpers read
  the four fields below.
\<close>

record transform_Image =
  Reference :: string
  Name :: string
  Tag :: string
  Digest :: string

text \<open>\<open>v1.Hash\<close> and its \<open>String\<close> method (\<open>algorithm:hex\<close>).\<close>

record Hash =
  Algorithm :: string
  Hex :: string

definition Hash_String :: "Hash \<Rightarrow> string" where
  "Hash_String h = Algorithm h @ '':'' @ Hex h"

text \<open>
  An entry of \<open>v1.IndexManifest.Manifests\<close>: the digest, and the field \<open>Platform\<close>, a
  pointer that is nil (\<open>None\<close>) when the entry names no platform and otherwise points to a
  platform, kept as its \<open>String\<close> method prints it.
\<close>

record index_entry =
  entryDigest :: Hash
  entryPlatform :: "string option"

text \<open>\<open>remote.Descriptor\<close>: the media type and the raw manifest bytes.\<close>

record Descriptor =
  MediaType :: string
  Manifest :: string

text \<open>
  Sizes are Go \<open>int64\<close>: 64-bit words, read as two's complement by \<open>sint\<close>; \<open>+\<close> wraps.
\<close>

type_synonym int64 = "64 word"

text \<open>
  \<open>v1.Layer\<close> and \<open>v1.Image\<close> are interfaces whose methods return a value or an error.
  An image is modelled by what its methods answer; a library error by its message.
\<close>

record Layer =
  layerDigest :: "string + Hash"
  layerSize :: "string + int64"
  layerMediaType :: "string + string"

record v1Manifest =
  configSize :: int64

record v1Image =
  imageSize :: "string + int64"
  imageManifest :: "string + v1Manifest"
  imageLayers :: "string + Layer list"

record PullConfig =
  DestinationDirectory :: string
  ImageList :: "transform_Image list"
  Arch :: string
  RegistryOverrides :: "(string \<times> string) list"
  CacheDirectory :: string

datatype opener = Buffered | Unbuffered

datatype strategy = Concurrent | Sequential

text \<open>
  The calls \<open>Pull\<close> makes to the outside (registry, tarball loader, container daemon,
  layer cache, OCI layout), in the order they happen.
\<close>

datatype event =
    EvLoad string
  | EvGet string
  | EvRemotePull string
  | EvDockerEndpoint
  | EvInspect string
  | EvDaemonImage string opener
  | EvCacheImage string string
  | EvSaveStart strategy "transform_Image list"
  | EvWriteImage transform_Image bool
  | EvAppendDescriptor transform_Image bool
  | EvAppendImage transform_Image bool
  | EvCleanup transform_Image
  | EvProgressBar int64

text \<open>
  What a goroutine or \<open>Pull\<close> ends with when it does not succeed. All but the last are
  error values. \<open>PanicNilPointer\<close> is no error value: it stands for the run-time panic of a
  method call through a nil pointer (line 60, on the \<open>Platform\<close> of an index entry that has
  none; line 223, on an image that was not loaded), which no caller recovers and which ends
  the process.
\<close>

datatype pull_error =
    ErrCreateDirectory string string
  | ErrLayoutWrite string
  | ErrLoad string string
  | ErrParseReference string
  | ErrRateLimited string
  | ErrDockerEndpoint string
  | ErrDockerNotAvailable string
  | ErrInspect string
  | ErrDaemonLoad string
  | ErrPullImage string string
  | ErrUnmarshalIndex string
  | ErrIndexNotSupported string
  | ErrOnlyHasImageLayers string
  | ErrSizeOfImage string
  | ErrLayers string string
  | ErrLayerDigest string
  | ErrContext string
  | ErrDescriptor string
  | ErrLib string
  | ErrRemoveLayer string string
  | ErrLstat string
  | ErrHash string
  | ErrRename string
  | PanicNilPointer

text \<open>A file of the layer cache, as \<open>os.Stat\<close> sees it.\<close>

record cache_file =
  fileSize :: int64

text \<open>
  The directory \<open>blobs/sha256\<close> of the layout: an association list from the path below
  the directory (its components) to what is there; the first entry of a path counts.
\<close>

datatype node = File string | Directory

type_synonym path = "string list"

type_synonym tree = "(path \<times> node) list"

datatype blob_root = RootMissing | RootNotDir | RootDir tree

record disk =
  files :: "string \<Rightarrow> cache_file option"
  blobs :: blob_root

record world =
  events :: "event list"
  theDisk :: disk

text \<open>
  The libraries and the machine \<open>Pull\<close> runs against. Answers that may change from one
  call to the next take the history of calls (or the number of earlier calls) as an
  argument. The last two fields are the choices of the scheduler among the goroutines of
  the info-fetch: the order in which they take effect, and, for a goroutine that loads a
  tarball, whose assignment to the shared variable \<open>err\<close> it reads back.
\<close>

record lib_env =
  IsIndex :: "string \<Rightarrow> bool"
  IsLayer :: "string \<Rightarrow> bool"
  unmarshalIndex :: "string \<Rightarrow> string + index_entry list"
  goosWindows :: bool
  filepathJoin :: "string \<Rightarrow> string \<Rightarrow> string"
  sha256 :: "string \<Rightarrow> string"
  createDirectory :: "string \<Rightarrow> string option"
  layoutWrite :: "string \<Rightarrow> string option"
  craneLoad :: "string \<Rightarrow> string + v1Image"
  parseReference :: "string \<Rightarrow> string + string"
  craneGet :: "string \<Rightarrow> nat \<Rightarrow> string + Descriptor"
  cranePull :: "string \<Rightarrow> string + v1Image"
  newDockerCli :: "string option"
  cliInitialize :: "string option"
  getMetadata :: "string option"
  endpointFromContext :: "string + string"
  newClient :: "string \<Rightarrow> string option"
  imageInspect :: "string \<Rightarrow> string + int64"
  daemonImage :: "string \<Rightarrow> opener \<Rightarrow> string + v1Image"
  cacheImage :: "string \<Rightarrow> v1Image \<Rightarrow> v1Image"
  partialDescriptor :: "v1Image \<Rightarrow> string option"
  ctxDone :: "event list \<Rightarrow> bool"
  cancelSeen :: "event list \<Rightarrow> bool"
  writeImage :: "world \<Rightarrow> v1Image \<Rightarrow> string option \<times> disk"
  appendDescriptor :: "world \<Rightarrow> transform_Image \<Rightarrow> string option \<times> disk"
  appendImage :: "world \<Rightarrow> v1Image \<Rightarrow> transform_Image \<Rightarrow> string option \<times> disk"
  statErr :: "string \<Rightarrow> string option"
  removeErr :: "string \<Rightarrow> string option"
  hashErr :: "path \<Rightarrow> string option"
  renameErr :: "path \<Rightarrow> path \<Rightarrow> string option"
  fetchOrder :: "nat list"
  errWrittenBy :: "string \<Rightarrow> string option"

section \<open>Package images: helpers\<close>

text \<open>\<open>strings.Join\<close>.\<close>

fun joinWith :: "string \<Rightarrow> string list \<Rightarrow> string" where
  "joinWith sep [] = []"
| "joinWith sep [x] = x"
| "joinWith sep (x # y # ys) = x @ sep @ joinWith sep (y # ys)"

text \<open>\<open>strings.Replace(s, old, new, 1)\<close>: the first occurrence of \<open>old\<close> is replaced.\<close>

fun replaceFirst :: "string \<Rightarrow> string \<Rightarrow> string \<Rightarrow> string" where
  "replaceFirst old new [] = (if old = [] then new else [])"
| "replaceFirst old new (c # cs) =
     (if prefix old (c # cs) then new @ drop (length old) (c # cs)
      else c # replaceFirst old new cs)"

definition imageName :: "transform_Image \<Rightarrow> string" where
  "imageName refInfo = (if Tag refInfo \<noteq> [] then Name refInfo @ '':'' @ Tag refInfo else Name refInfo)"

definition indexLine :: "string \<Rightarrow> Hash \<Rightarrow> string \<Rightarrow> string" where
  "indexLine name digest platform =
     ''image - '' @ name @ ''@'' @ Hash_String digest @ '' with platform '' @ platform"

text \<open>
  Lines 59-61: one line per manifest of the index. \<open>desc.Platform.String()\<close> panics on the
  first entry whose \<open>Platform\<close> is nil; \<open>None\<close> is that panic.
\<close>

fun indexLines :: "string \<Rightarrow> index_entry list \<Rightarrow> string list option" where
  "indexLines name [] = Some []"
| "indexLines name (d # ds) =
     (case entryPlatform d of
        None \<Rightarrow> None
      | Some platform \<Rightarrow>
         (case indexLines name ds of
            None \<Rightarrow> None
          | Some ls \<Rightarrow> Some (indexLine name (entryDigest d) platform # ls)))"

definition checkForIndex :: "lib_env \<Rightarrow> transform_Image \<Rightarrow> Descriptor option \<Rightarrow> pull_error option" where
  "checkForIndex env refInfo desc =
     (case desc of
        None \<Rightarrow> None
      | Some d \<Rightarrow>
         if Digest refInfo \<noteq> [] \<and> IsIndex env (MediaType d) then
           (case unmarshalIndex env (Manifest d) of
              Inl e \<Rightarrow> Some (ErrUnmarshalIndex e)
            | Inr manifests \<Rightarrow>
               (case indexLines (imageName refInfo) manifests of
                  None \<Rightarrow> Some PanicNilPointer
                | Some ls \<Rightarrow>
                   let lines = ''The following images are available in the index:'' # ls;
                       imageOptions = joinWith [CHR 0x0A] lines
                   in Some (ErrIndexNotSupported
                        (Reference refInfo
                         @ '' resolved to an OCI image index which is not supported by Zarf, select a specific platform to use: ''
                         @ imageOptions))))
         else None)"

definition getDockerEndpointHost :: "lib_env \<Rightarrow> string + string" where
  "getDockerEndpointHost env =
     (case newDockerCli env of
        Some e \<Rightarrow> Inl e
      | None \<Rightarrow>
         (case cliInitialize env of
            Some e \<Rightarrow> Inl e
          | None \<Rightarrow>
             (case getMetadata env of
                Some e \<Rightarrow> Inl e
              | None \<Rightarrow> endpointFromContext env)))"

text \<open>The loop of \<open>getSizeOfImage\<close> over the layers.\<close>

fun addLayerSizes :: "int64 \<Rightarrow> Layer list \<Rightarrow> string + int64" where
  "addLayerSizes totalSize [] = Inr totalSize"
| "addLayerSizes totalSize (layer # layers) =
     (case layerSize layer of
        Inl e \<Rightarrow> Inl e
      | Inr sz \<Rightarrow> addLayerSizes (totalSize + sz) layers)"

definition getSizeOfImage :: "v1Image \<Rightarrow> string + int64" where
  "getSizeOfImage img =
     (case imageSize img of
        Inl e \<Rightarrow> Inl e
      | Inr manifestSize \<Rightarrow>
         (case imageManifest img of
            Inl e \<Rightarrow> Inl e
          | Inr manifest \<Rightarrow>
             (case imageLayers img of
                Inl e \<Rightarrow> Inl e
              | Inr layers \<Rightarrow> addLayerSizes (0 + manifestSize + configSize manifest) layers)))"

text \<open>
  Modelled from the spec: the loop of \<open>utils.OnlyHasImageLayers\<close>, a function of this
  repository whose source is not at hand. The spec says that images whose entire payload is
  image-layer media types pass through the cache: the helper answers whether every layer of
  the image has an image-layer media type, and fails when the layers or a media type cannot
  be read.
\<close>

fun allImageLayers :: "lib_env \<Rightarrow> Layer list \<Rightarrow> string + bool" where
  "allImageLayers env [] = Inr True"
| "allImageLayers env (layer # layers) =
     (case layerMediaType layer of
        Inl e \<Rightarrow> Inl e
      | Inr mt \<Rightarrow> if IsLayer env mt then allImageLayers env layers else Inr False)"

text \<open>
  Modelled from the spec: the entry point \<open>utils.OnlyHasImageLayers\<close> itself, which reads
  the layers of the image and checks each of them as above.
\<close>

definition OnlyHasImageLayers :: "lib_env \<Rightarrow> v1Image \<Rightarrow> string + bool" where
  "OnlyHasImageLayers env img =
     (case imageLayers img of Inl e \<Rightarrow> Inl e | Inr layers \<Rightarrow> allImageLayers env layers)"

definition layerCachePath :: "lib_env \<Rightarrow> string \<Rightarrow> Hash \<Rightarrow> string" where
  "layerCachePath env path h =
     (let file = (if goosWindows env then Algorithm h @ ''-'' @ Hex h else Hash_String h)
      in filepathJoin env path file)"

text \<open>
  \<open>os.Stat\<close> on a path of the cache: a missing file is reported as \<open>fs.ErrNotExist\<close>,
  an existing one by its size unless the call fails for another reason.
\<close>

datatype stat_result = StatNotExist | StatError string | StatOk cache_file

definition osStat :: "lib_env \<Rightarrow> (string \<Rightarrow> cache_file option) \<Rightarrow> string \<Rightarrow> stat_result" where
  "osStat env fs location =
     (case fs location of
        None \<Rightarrow> StatNotExist
      | Some info \<Rightarrow> (case statErr env location of Some e \<Rightarrow> StatError e | None \<Rightarrow> StatOk info))"

text \<open>
  One goroutine of \<open>CleanupInProgressLayers\<close>: the error it returns and the cache files it
  leaves.
\<close>

definition cleanupLayer ::
  "lib_env \<Rightarrow> string \<Rightarrow> Layer \<Rightarrow> (string \<Rightarrow> cache_file option) \<Rightarrow>
     pull_error option \<times> (string \<Rightarrow> cache_file option)" where
  "cleanupLayer env cacheDirectory layer fs =
     (case layerDigest layer of
        Inl e \<Rightarrow> (Some (ErrLib e), fs)
      | Inr digest \<Rightarrow>
         (case layerSize layer of
            Inl e \<Rightarrow> (Some (ErrLib e), fs)
          | Inr sz \<Rightarrow>
             let location = layerCachePath env cacheDirectory digest in
             (case osStat env fs location of
                StatNotExist \<Rightarrow> (None, fs)
              | StatError e \<Rightarrow> (Some (ErrLib e), fs)
              | StatOk info \<Rightarrow>
                 if fileSize info \<noteq> sz then
                   (case removeErr env location of
                      Some e \<Rightarrow> (Some (ErrRemoveLayer (Hex digest) e), fs)
                    | None \<Rightarrow> (None, fs(location := None)))
                 else (None, fs))))"

text \<open>
  The error group runs one goroutine per layer and \<open>Wait\<close> returns the first error; no
  goroutine is skipped because another failed. The goroutines are taken in layer order.
\<close>

fun cleanupLayers ::
  "lib_env \<Rightarrow> string \<Rightarrow> Layer list \<Rightarrow> (string \<Rightarrow> cache_file option) \<Rightarrow>
     pull_error option \<times> (string \<Rightarrow> cache_file option)" where
  "cleanupLayers env cacheDirectory [] fs = (None, fs)"
| "cleanupLayers env cacheDirectory (layer # layers) fs =
     (case cleanupLayer env cacheDirectory layer fs of
        (err, fs1) \<Rightarrow>
          (case cleanupLayers env cacheDirectory layers fs1 of
             (err', fs2) \<Rightarrow> ((case err of Some e \<Rightarrow> Some e | None \<Rightarrow> err'), fs2)))"

definition CleanupInProgressLayers ::
  "lib_env \<Rightarrow> v1Image \<Rightarrow> string \<Rightarrow> (string \<Rightarrow> cache_file option) \<Rightarrow>
     pull_error option \<times> (string \<Rightarrow> cache_file option)" where
  "CleanupInProgressLayers env img cacheDirectory fs =
     (case imageLayers img of
        Inl e \<Rightarrow> (Some (ErrLib e), fs)
      | Inr layers \<Rightarrow> cleanupLayers env cacheDirectory layers fs)"

section \<open>Package images: the info-fetch phase of Pull\<close>

text \<open>
  What the goroutines of the first error group share: the calls made so far, the captured
  variable \<open>dockerEndPointHost\<close>, the atomic counter \<open>totalBytes\<close>, the set \<open>shas\<close> and the
  map \<open>fetched\<close>.
\<close>

record fetch_state =
  fEvents :: "event list"
  dockerEndPointHost :: string
  totalBytes :: int64
  shas :: "string list"
  fetched :: "(transform_Image \<times> v1Image) list"

definition logEv :: "event \<Rightarrow> fetch_state \<Rightarrow> fetch_state" where
  "logEv e st = st\<lparr>fEvents := fEvents st @ [e]\<rparr>"

text \<open>
  Lines 144-149: the loop over \<open>cfg.RegistryOverrides\<close>. Every matching key rewrites the
  original reference, so the last matching key of the iteration decides.
\<close>

fun applyOverrides :: "(string \<times> string) list \<Rightarrow> string \<Rightarrow> string \<Rightarrow> string" where
  "applyOverrides [] reference ref = ref"
| "applyOverrides ((k, v) # kvs) reference ref =
     applyOverrides kvs reference (if prefix k reference then replaceFirst k v reference else ref)"

definition isTarball :: "string \<Rightarrow> bool" where
  "isTarball ref = (suffix ''.tar'' ref \<or> suffix ''.tar.gz'' ref \<or> suffix ''.tgz'' ref)"

definition tooManyRequests :: "string \<Rightarrow> bool" where
  "tooManyRequests e = sublist ''unexpected status code 429 Too Many Requests'' e"

definition getCount :: "event list \<Rightarrow> string \<Rightarrow> nat" where
  "getCount evs ref = count_list evs (EvGet ref)"

text \<open>
  Lines 172-210: the fall-back to the local container daemon. The warnings printed on the
  way (the fall-back itself, an image above 750 MB) change nothing and are left out.
\<close>

definition daemonFallback ::
  "lib_env \<Rightarrow> string \<Rightarrow> string \<Rightarrow> fetch_state \<Rightarrow>
     (pull_error + v1Image \<times> Descriptor option) \<times> fetch_state" where
  "daemonFallback env ref reference st =
     (case (if dockerEndPointHost st = []
            then (case getDockerEndpointHost env of
                    Inl e \<Rightarrow> Inl (e, logEv EvDockerEndpoint st)
                  | Inr h \<Rightarrow> Inr ((logEv EvDockerEndpoint st)\<lparr>dockerEndPointHost := h\<rparr>))
            else Inr st) of
        Inl (e, st1) \<Rightarrow> (Inl (ErrDockerEndpoint e), st1)
      | Inr st1 \<Rightarrow>
         (case newClient env (dockerEndPointHost st1) of
            Some e \<Rightarrow> (Inl (ErrDockerNotAvailable e), st1)
          | None \<Rightarrow>
             (case imageInspect env ref of
                Inl e \<Rightarrow> (Inl (ErrInspect e), logEv (EvInspect ref) st1)
              | Inr rawSize \<Rightarrow>
                 (case daemonImage env reference Unbuffered of
                    Inl e \<Rightarrow> (Inl (ErrDaemonLoad e),
                               logEv (EvDaemonImage reference Unbuffered) (logEv (EvInspect ref) st1))
                  | Inr img \<Rightarrow> (Inr (img, None),
                               logEv (EvDaemonImage reference Unbuffered) (logEv (EvInspect ref) st1))))))"

text \<open>
  Lines 155-159: in the tarball branch the goroutine assigns the result of \<open>crane.Load\<close> to
  its own \<open>img\<close> and to the variable \<open>err\<close> of \<open>Pull\<close> (declared at line 108), and tests
  \<open>err\<close> on the next line. The other goroutines of that branch assign the same variable
  with no lock, so the value tested is the one written by this goroutine or by another
  goroutine that loads a tarball of the list: \<open>errWrittenBy\<close> names it (\<open>None\<close> for the
  goroutine itself).
\<close>

definition loadErr :: "lib_env \<Rightarrow> string \<Rightarrow> string option" where
  "loadErr env ref = (case craneLoad env ref of Inl e \<Rightarrow> Some e | Inr img \<Rightarrow> None)"

definition tarballRefs :: "PullConfig \<Rightarrow> string list" where
  "tarballRefs cfg =
     filter isTarball
       (map (\<lambda>refInfo. applyOverrides (RegistryOverrides cfg) (Reference refInfo) (Reference refInfo))
          (ImageList cfg))"

definition errSeen :: "lib_env \<Rightarrow> PullConfig \<Rightarrow> string \<Rightarrow> string option" where
  "errSeen env cfg ref =
     (case errWrittenBy env ref of
        None \<Rightarrow> loadErr env ref
      | Some other \<Rightarrow> if other \<in> set (tarballRefs cfg) then loadErr env other else loadErr env ref)"

text \<open>
  Lines 144-217: from the reference to an image and, for a remote image, its descriptor.
  A goroutine whose \<open>crane.Load\<close> failed and which reads nil from \<open>err\<close> goes on with the nil
  image that \<open>crane.Load\<close> returned: \<open>checkForIndex\<close> returns nil for its nil descriptor and
  the helper of line 223, which reads the layers of the image, panics on the nil image.
\<close>

definition resolveImage ::
  "lib_env \<Rightarrow> PullConfig \<Rightarrow> transform_Image \<Rightarrow> fetch_state \<Rightarrow>
     (pull_error + v1Image \<times> Descriptor option) \<times> fetch_state" where
  "resolveImage env cfg refInfo st =
     (let ref = applyOverrides (RegistryOverrides cfg) (Reference refInfo) (Reference refInfo) in
      if isTarball ref then
        (case errSeen env cfg ref of
           Some e \<Rightarrow> (Inl (ErrLoad (Reference refInfo) e), logEv (EvLoad ref) st)
         | None \<Rightarrow>
            (case craneLoad env ref of
               Inl e \<Rightarrow> (Inl PanicNilPointer, logEv (EvLoad ref) st)
             | Inr img \<Rightarrow> (Inr (img, None), logEv (EvLoad ref) st)))
      else
        (case parseReference env ref of
           Inl e \<Rightarrow> (Inl (ErrParseReference e), st)
         | Inr reference \<Rightarrow>
            (case craneGet env ref (getCount (fEvents st) ref) of
               Inl e \<Rightarrow>
                 if tooManyRequests e then (Inl (ErrRateLimited e), logEv (EvGet ref) st)
                 else daemonFallback env ref reference (logEv (EvGet ref) st)
             | Inr desc \<Rightarrow>
                 (case cranePull env ref of
                    Inl e \<Rightarrow> (Inl (ErrPullImage (Reference refInfo) e),
                               logEv (EvRemotePull ref) (logEv (EvGet ref) st))
                  | Inr img \<Rightarrow> (Inr (img, Some desc),
                               logEv (EvRemotePull ref) (logEv (EvGet ref) st))))))"

text \<open>Lines 223-229: the image is wrapped by the filesystem cache or left as it is.\<close>

definition routeCache ::
  "lib_env \<Rightarrow> PullConfig \<Rightarrow> transform_Image \<Rightarrow> v1Image \<Rightarrow> fetch_state \<Rightarrow>
     (pull_error + v1Image) \<times> fetch_state" where
  "routeCache env cfg refInfo img st =
     (case OnlyHasImageLayers env img of
        Inl e \<Rightarrow> (Inl (ErrOnlyHasImageLayers e), st)
      | Inr cacheImg \<Rightarrow>
         if cacheImg \<and> CacheDirectory cfg \<noteq> []
         then (Inr (cacheImage env (CacheDirectory cfg) img),
               logEv (EvCacheImage (Reference refInfo) (CacheDirectory cfg)) st)
         else (Inr img, st))"

text \<open>Lines 244-252: the layer digests are added to \<open>shas\<close>.\<close>

fun addShas :: "Layer list \<Rightarrow> string list \<Rightarrow> string option \<times> string list" where
  "addShas [] hs = (None, hs)"
| "addShas (layer # layers) hs =
     (case layerDigest layer of
        Inl e \<Rightarrow> (Some e, hs)
      | Inr digest \<Rightarrow> addShas layers (if Hex digest \<in> set hs then hs else hs @ [Hex digest]))"

text \<open>
  The goroutine started for one entry of \<open>cfg.ImageList\<close>. The libraries return an image
  whenever they return no error, and a nil image has panicked before, so the closing check
  \<open>img == nil\<close> has no branch here.
\<close>

definition fetchImage ::
  "lib_env \<Rightarrow> PullConfig \<Rightarrow> transform_Image \<Rightarrow> fetch_state \<Rightarrow> pull_error option \<times> fetch_state" where
  "fetchImage env cfg refInfo st =
     (case resolveImage env cfg refInfo st of
        (Inl e, st1) \<Rightarrow> (Some e, st1)
      | (Inr (img, desc), st1) \<Rightarrow>
         (case checkForIndex env refInfo desc of
            Some e \<Rightarrow> (Some e, st1)
          | None \<Rightarrow>
             (case routeCache env cfg refInfo img st1 of
                (Inl e, st2) \<Rightarrow> (Some e, st2)
              | (Inr img1, st2) \<Rightarrow>
                 (case getSizeOfImage img1 of
                    Inl e \<Rightarrow> (Some (ErrSizeOfImage e), st2)
                  | Inr sz \<Rightarrow>
                     let st3 = st2\<lparr>totalBytes := totalBytes st2 + sz\<rparr> in
                     (case imageLayers img1 of
                        Inl e \<Rightarrow> (Some (ErrLayers (Reference refInfo) e), st3)
                      | Inr layers \<Rightarrow>
                         (case addShas layers (shas st3) of
                            (Some e, hs) \<Rightarrow> (Some (ErrLayerDigest e), st3\<lparr>shas := hs\<rparr>)
                          | (None, hs) \<Rightarrow>
                             (None, st3\<lparr>shas := hs,
                                         fetched := AList.update refInfo img1 (fetched st3)\<rparr>)))))))"

text \<open>
  The first error group. \<open>fetchImages\<close> takes the goroutines in the order in which they
  take effect: every goroutine runs, whatever the others return, and \<open>Wait\<close> returns the
  first error in that order. A goroutine that panics ends the process: nothing runs after
  it and the panic is the outcome.
\<close>

fun fetchImages ::
  "lib_env \<Rightarrow> PullConfig \<Rightarrow> transform_Image list \<Rightarrow> fetch_state \<Rightarrow> pull_error option \<times> fetch_state" where
  "fetchImages env cfg [] st = (None, st)"
| "fetchImages env cfg (refInfo # rest) st =
     (case fetchImage env cfg refInfo st of
        (err, st1) \<Rightarrow>
          if err = Some PanicNilPointer then (err, st1)
          else
            (case fetchImages env cfg rest st1 of
               (err', st2) \<Rightarrow>
                 ((if err' = Some PanicNilPointer then err'
                   else (case err of Some e \<Rightarrow> Some e | None \<Rightarrow> err')), st2)))"

text \<open>
  The goroutines are started in the order of the image list and run concurrently, so the
  order in which they take effect is not that of the list. \<open>arrange\<close> builds it from the
  numbers of \<open>fetchOrder\<close>: the goroutine of each image is put at the chosen place among
  those of the images after it. Every order of the list can be built, and nothing else.
\<close>

definition insertAt :: "nat \<Rightarrow> 'a \<Rightarrow> 'a list \<Rightarrow> 'a list" where
  "insertAt i x xs = take i xs @ x # drop i xs"

fun arrange :: "nat list \<Rightarrow> 'a list \<Rightarrow> 'a list" where
  "arrange ks [] = []"
| "arrange [] (x # xs) = x # arrange [] xs"
| "arrange (k # ks) (x # xs) = insertAt (k mod Suc (length xs)) x (arrange ks xs)"

section \<open>Package images: the save phase of Pull\<close>

definition addEvent :: "event \<Rightarrow> world \<Rightarrow> world" where
  "addEvent e w = w\<lparr>events := events w @ [e]\<rparr>"

text \<open>
  The clean-up after a failed write: its own error is only reported to the user, the cache
  files it leaves are kept.
\<close>

definition cleanupAfterFailure :: "lib_env \<Rightarrow> transform_Image \<Rightarrow> v1Image \<Rightarrow> string \<Rightarrow> world \<Rightarrow> world" where
  "cleanupAfterFailure env info img cacheDirectory w =
     (case CleanupInProgressLayers env img cacheDirectory (files (theDisk w)) of
        (err, fs) \<Rightarrow> addEvent (EvCleanup info) (w\<lparr>theDisk := (theDisk w)\<lparr>files := fs\<rparr>\<rparr>))"

text \<open>
  \<open>SaveSequential\<close> ranges over the map \<open>m\<close>; the association list fixes the order of the
  iteration, which Go leaves open.
\<close>

fun saveSequentialLoop ::
  "lib_env \<Rightarrow> string \<Rightarrow> (transform_Image \<times> v1Image) list \<Rightarrow> (transform_Image \<times> v1Image) list \<Rightarrow> world \<Rightarrow>
     (transform_Image \<times> v1Image) list \<times> pull_error option \<times> world" where
  "saveSequentialLoop env cacheDirectory [] saved w = (saved, None, w)"
| "saveSequentialLoop env cacheDirectory ((info, img) # rest) saved w =
     (case getSizeOfImage img of
        Inl e \<Rightarrow> (saved, Some (ErrSizeOfImage e), w)
      | Inr sz \<Rightarrow>
         (case appendImage env w img info of
            (Some e, d) \<Rightarrow>
              (saved, Some (ErrLib e),
               cleanupAfterFailure env info img cacheDirectory
                 (addEvent (EvAppendImage info False) (w\<lparr>theDisk := d\<rparr>)))
          | (None, d) \<Rightarrow>
              saveSequentialLoop env cacheDirectory rest (AList.update info img saved)
                (addEvent (EvAppendImage info True) (w\<lparr>theDisk := d\<rparr>))))"

definition SaveSequential ::
  "lib_env \<Rightarrow> (transform_Image \<times> v1Image) list \<Rightarrow> string \<Rightarrow> world \<Rightarrow>
     (transform_Image \<times> v1Image) list \<times> pull_error option \<times> world" where
  "SaveSequential env m cacheDirectory w =
     saveSequentialLoop env cacheDirectory m [] (addEvent (EvSaveStart Sequential (map fst m)) w)"

text \<open>
  One goroutine of \<open>SaveConcurrent\<close>. The group's context is done when the caller's is, or
  after another goroutine has failed; whether this goroutine sees the latter in time is
  left to \<open>cancelSeen\<close>.
\<close>

definition saveConcurrentWorker ::
  "lib_env \<Rightarrow> string \<Rightarrow> transform_Image \<Rightarrow> v1Image \<Rightarrow> bool \<Rightarrow> world \<Rightarrow> pull_error option \<times> world" where
  "saveConcurrentWorker env cacheDirectory info img failedBefore w =
     (if ctxDone env (events w) \<or> (failedBefore \<and> cancelSeen env (events w))
      then (Some (ErrContext ''context canceled''), w)
      else
        (case partialDescriptor env img of
           Some e \<Rightarrow> (Some (ErrDescriptor e), w)
         | None \<Rightarrow>
            (case getSizeOfImage img of
               Inl e \<Rightarrow> (Some (ErrLib e), w)
             | Inr sz \<Rightarrow>
                (case writeImage env w img of
                   (Some e, d) \<Rightarrow>
                     (Some (ErrLib e),
                      cleanupAfterFailure env info img cacheDirectory
                        (addEvent (EvWriteImage info False) (w\<lparr>theDisk := d\<rparr>)))
                 | (None, d) \<Rightarrow>
                     let w1 = addEvent (EvWriteImage info True) (w\<lparr>theDisk := d\<rparr>) in
                     (case appendDescriptor env w1 info of
                        (Some e, d1) \<Rightarrow>
                          (Some (ErrLib e), addEvent (EvAppendDescriptor info False) (w1\<lparr>theDisk := d1\<rparr>))
                      | (None, d1) \<Rightarrow>
                          (None, addEvent (EvAppendDescriptor info True) (w1\<lparr>theDisk := d1\<rparr>)))))))"

text \<open>
  The error group of \<open>SaveConcurrent\<close>: every goroutine is started, \<open>Wait\<close> returns the
  first error, and \<open>saved\<close> holds the images whose goroutine returned no error.
\<close>

fun saveConcurrentLoop ::
  "lib_env \<Rightarrow> string \<Rightarrow> (transform_Image \<times> v1Image) list \<Rightarrow> (transform_Image \<times> v1Image) list \<Rightarrow>
     pull_error option \<Rightarrow> world \<Rightarrow> (transform_Image \<times> v1Image) list \<times> pull_error option \<times> world" where
  "saveConcurrentLoop env cacheDirectory [] saved firstErr w = (saved, firstErr, w)"
| "saveConcurrentLoop env cacheDirectory ((info, img) # rest) saved firstErr w =
     (case saveConcurrentWorker env cacheDirectory info img (firstErr \<noteq> None) w of
        (None, w1) \<Rightarrow>
          saveConcurrentLoop env cacheDirectory rest (AList.update info img saved) firstErr w1
      | (Some e, w1) \<Rightarrow>
          saveConcurrentLoop env cacheDirectory rest saved
            (case firstErr of None \<Rightarrow> Some e | Some e0 \<Rightarrow> Some e0) w1)"

definition SaveConcurrent ::
  "lib_env \<Rightarrow> (transform_Image \<times> v1Image) list \<Rightarrow> string \<Rightarrow> world \<Rightarrow>
     (transform_Image \<times> v1Image) list \<times> pull_error option \<times> world" where
  "SaveConcurrent env m cacheDirectory w =
     saveConcurrentLoop env cacheDirectory m [] None (addEvent (EvSaveStart Concurrent (map fst m)) w)"

text \<open>The map \<open>toPull\<close> and the layout, as the two retried closures of \<open>Pull\<close> change them.\<close>

type_synonym save_state = "(transform_Image \<times> v1Image) list \<times> world"

definition deleteSaved ::
  "(transform_Image \<times> v1Image) list \<Rightarrow> (transform_Image \<times> v1Image) list \<Rightarrow> (transform_Image \<times> v1Image) list" where
  "deleteSaved saved toPull = filter (\<lambda>kv. fst kv \<notin> set (map fst saved)) toPull"

definition concurrentAttempt :: "lib_env \<Rightarrow> string \<Rightarrow> save_state \<Rightarrow> pull_error option \<times> save_state" where
  "concurrentAttempt env cacheDirectory s =
     (case SaveConcurrent env (fst s) cacheDirectory (snd s) of
        (saved, err, w) \<Rightarrow> (err, (deleteSaved saved (fst s), w)))"

definition sequentialAttempt :: "lib_env \<Rightarrow> string \<Rightarrow> save_state \<Rightarrow> pull_error option \<times> save_state" where
  "sequentialAttempt env cacheDirectory s =
     (case SaveSequential env (fst s) cacheDirectory (snd s) of
        (saved, err, w) \<Rightarrow> (err, (deleteSaved saved (fst s), w)))"

text \<open>
  \<open>retry.Do\<close> with \<open>retry.Context(ctx)\<close> and \<open>retry.Attempts(2)\<close>: nothing is tried when the
  context is already done; after a failed first attempt the second follows unless the
  context ends during the delay; the second attempt is the last.
\<close>

definition retryTwice ::
  "lib_env \<Rightarrow> (save_state \<Rightarrow> pull_error option \<times> save_state) \<Rightarrow> save_state \<Rightarrow> pull_error option \<times> save_state" where
  "retryTwice env f s =
     (if ctxDone env (events (snd s)) then (Some (ErrContext ''context canceled''), s)
      else
        (case f s of
           (None, s1) \<Rightarrow> (None, s1)
         | (Some e, s1) \<Rightarrow>
             if ctxDone env (events (snd s1)) then (Some (ErrContext ''context canceled''), s1)
             else f s1))"

text \<open>Lines 279-309.\<close>

definition savePhase ::
  "lib_env \<Rightarrow> string \<Rightarrow> (transform_Image \<times> v1Image) list \<Rightarrow> world \<Rightarrow> pull_error option \<times> save_state" where
  "savePhase env cacheDirectory fetchedImages w =
     (case retryTwice env (concurrentAttempt env cacheDirectory) (fetchedImages, w) of
        (None, s1) \<Rightarrow> (None, s1)
      | (Some e, s1) \<Rightarrow> retryTwice env (sequentialAttempt env cacheDirectory) s1)"

section \<open>Package images: the blob repair of Pull\<close>

text \<open>
  \<open>os.Rename\<close> of the file at \<open>src\<close> (holding \<open>c\<close>) to \<open>dst\<close>: a file at \<open>dst\<close> is replaced,
  a directory there makes the call fail.
\<close>

definition osRename :: "lib_env \<Rightarrow> path \<Rightarrow> path \<Rightarrow> string \<Rightarrow> tree \<Rightarrow> pull_error + tree" where
  "osRename env src dst c t =
     (case renameErr env src dst of
        Some e \<Rightarrow> Inl (ErrRename e)
      | None \<Rightarrow>
         if map_of t dst = Some Directory then Inl (ErrRename ''file exists'')
         else if src = dst then Inr t
         else Inr ((dst, File c) # filter (\<lambda>kv. fst kv \<noteq> src \<and> fst kv \<noteq> dst) t))"

text \<open>The callback of \<open>filepath.Walk\<close> (lines 321-336), on the path \<open>p\<close> as it is now.\<close>

definition repairBlob :: "lib_env \<Rightarrow> path \<Rightarrow> tree \<Rightarrow> pull_error + tree" where
  "repairBlob env p t =
     (case map_of t p of
        None \<Rightarrow> Inl (ErrLstat (concat p))
      | Some Directory \<Rightarrow> Inr t
      | Some (File c) \<Rightarrow>
         (case hashErr env p of
            Some e \<Rightarrow> Inl (ErrHash e)
          | None \<Rightarrow> osRename env p [sha256 env c] c t))"

fun walkEntries :: "lib_env \<Rightarrow> path list \<Rightarrow> tree \<Rightarrow> pull_error option \<times> tree" where
  "walkEntries env [] t = (None, t)"
| "walkEntries env (p # ps) t =
     (case repairBlob env p t of
        Inl e \<Rightarrow> (Some e, t)
      | Inr t1 \<Rightarrow> walkEntries env ps t1)"

text \<open>
  \<open>filepath.Walk\<close> on \<open>blobs/sha256\<close>. The walk visits the paths that are below the
  directory when it starts: the callback only adds files directly below the root, whose
  names the walk has read before the first call, and removes only the file it is called
  on. The order of the association list stands for the lexical order of the walk.
\<close>

definition walkBlobs :: "lib_env \<Rightarrow> blob_root \<Rightarrow> pull_error option \<times> blob_root" where
  "walkBlobs env root =
     (case root of
        RootMissing \<Rightarrow> (Some (ErrLstat ''blobs/sha256''), root)
      | RootNotDir \<Rightarrow> (Some (ErrRename ''not a directory''), root)
      | RootDir t \<Rightarrow>
         (case walkEntries env (remdups (map fst t)) t of (err, t1) \<Rightarrow> (err, RootDir t1)))"

section \<open>Package images: Pull\<close>

definition initialFetchState :: "world \<Rightarrow> fetch_state" where
  "initialFetchState w =
     \<lparr>fEvents = events w, dockerEndPointHost = [], totalBytes = 0, shas = [], fetched = []\<rparr>"

definition Pull ::
  "lib_env \<Rightarrow> PullConfig \<Rightarrow> world \<Rightarrow> (pull_error + (transform_Image \<times> v1Image) list) \<times> world" where
  "Pull env cfg w =
     (case createDirectory env (DestinationDirectory cfg) of
        Some e \<Rightarrow> (Inl (ErrCreateDirectory (DestinationDirectory cfg) e), w)
      | None \<Rightarrow>
         (case layoutWrite env (DestinationDirectory cfg) of
            Some e \<Rightarrow> (Inl (ErrLayoutWrite e), w)
          | None \<Rightarrow>
             (case fetchImages env cfg (arrange (fetchOrder env) (ImageList cfg))
                     (initialFetchState w) of
                (Some e, st) \<Rightarrow> (Inl e, w\<lparr>events := fEvents st\<rparr>)
              | (None, st) \<Rightarrow>
                 let w1 = addEvent (EvProgressBar (totalBytes st)) (w\<lparr>events := fEvents st\<rparr>) in
                 (case savePhase env (CacheDirectory cfg) (fetched st) w1 of
                    (Some e, s) \<Rightarrow> (Inl e, snd s)
                  | (None, s) \<Rightarrow>
                     (case walkBlobs env (blobs (theDisk (snd s))) of
                        (Some e, root) \<Rightarrow>
                          (Inl e, (snd s)\<lparr>theDisk := (theDisk (snd s))\<lparr>blobs := root\<rparr>\<rparr>)
                      | (None, root) \<Rightarrow>
                          (Inr (fetched st),
                           (snd s)\<lparr>theDisk := (theDisk (snd s))\<lparr>blobs := root\<rparr>\<rparr>))))))"

section \<open>Notions used to state the properties\<close>

text \<open>
  The cache file at \<open>location\<close> belongs to \<open>layer\<close> and its size on disk differs from the
  size the layer declares.
\<close>

definition staleAt ::
  "lib_env \<Rightarrow> string \<Rightarrow> (string \<Rightarrow> cache_file option) \<Rightarrow> string \<Rightarrow> Layer \<Rightarrow> bool" where
  "staleAt env cacheDirectory fs location layer =
     (case layerDigest layer of
        Inl e \<Rightarrow> False
      | Inr digest \<Rightarrow>
         (case layerSize layer of
            Inl e \<Rightarrow> False
          | Inr sz \<Rightarrow>
             (case fs location of
                None \<Rightarrow> False
              | Some info \<Rightarrow>
                 layerCachePath env cacheDirectory digest = location \<and> fileSize info \<noteq> sz)))"

text \<open>The cache file of \<open>layer\<close> is absent or has the size the layer declares.\<close>

definition cacheFileComplete ::
  "lib_env \<Rightarrow> string \<Rightarrow> (string \<Rightarrow> cache_file option) \<Rightarrow> Layer \<Rightarrow> bool" where
  "cacheFileComplete env cacheDirectory fs layer =
     (case layerDigest layer of
        Inl e \<Rightarrow> False
      | Inr digest \<Rightarrow>
         (case layerSize layer of
            Inl e \<Rightarrow> False
          | Inr sz \<Rightarrow>
             (case fs (layerCachePath env cacheDirectory digest) of
                None \<Rightarrow> True
              | Some info \<Rightarrow> fileSize info = sz)))"

text \<open>
  Reading the history of calls: the images entered into the index of the layout, and the
  save attempts with the strategy of each.
\<close>

fun savedBy :: "event \<Rightarrow> transform_Image list" where
  "savedBy (EvAppendDescriptor info ok) = (if ok then [info] else [])"
| "savedBy (EvAppendImage info ok) = (if ok then [info] else [])"
| "savedBy e = []"

definition savedKeys :: "event list \<Rightarrow> transform_Image list" where
  "savedKeys evs = concat (map savedBy evs)"

fun startOf :: "event \<Rightarrow> strategy list" where
  "startOf (EvSaveStart s ks) = [s]"
| "startOf e = []"

definition startsOf :: "event list \<Rightarrow> strategy list" where
  "startsOf evs = concat (map startOf evs)"

text \<open>
  Every save attempt of the history is started on exactly the images of \<open>remaining\<close> that
  no earlier call of the history has saved.
\<close>

fun removedInTime :: "transform_Image list \<Rightarrow> event list \<Rightarrow> bool" where
  "removedInTime remaining [] = True"
| "removedInTime remaining (EvSaveStart s ks # es) = (ks = remaining \<and> removedInTime remaining es)"
| "removedInTime remaining (e # es) =
     removedInTime (filter (\<lambda>k. k \<notin> set (savedBy e)) remaining) es"

text \<open>The size of the image that \<open>fetched\<close> holds for a reference (0 when there is none).\<close>

definition fetchedSize :: "(transform_Image \<times> v1Image) list \<Rightarrow> transform_Image \<Rightarrow> int64" where
  "fetchedSize imgs refInfo =
     (case map_of imgs refInfo of
        None \<Rightarrow> 0
      | Some img \<Rightarrow> (case getSizeOfImage img of Inl e \<Rightarrow> 0 | Inr sz \<Rightarrow> sz))"

text \<open>The media type of the layer can be read and is an image-layer media type.\<close>

definition isImageLayer :: "lib_env \<Rightarrow> Layer \<Rightarrow> bool" where
  "isImageLayer env layer = (case layerMediaType layer of Inl e \<Rightarrow> False | Inr mt \<Rightarrow> IsLayer env mt)"

text \<open>The condition under which \<open>Pull\<close> wraps an image by the filesystem cache.\<close>

definition cacheable :: "lib_env \<Rightarrow> PullConfig \<Rightarrow> Layer list \<Rightarrow> bool" where
  "cacheable env cfg layers = (CacheDirectory cfg \<noteq> [] \<and> list_all (isImageLayer env) layers)"

text \<open>The reference of an image after the registry overrides (the local \<open>ref\<close> of the goroutine).\<close>

definition overriddenRef :: "PullConfig \<Rightarrow> transform_Image \<Rightarrow> string" where
  "overriddenRef cfg refInfo =
     applyOverrides (RegistryOverrides cfg) (Reference refInfo) (Reference refInfo)"


text \<open>The entry of an index names a platform.\<close>

definition hasPlatform :: "index_entry \<Rightarrow> bool" where
  "hasPlatform d = (entryPlatform d \<noteq> None)"



section \<open>Concrete inputs\<close>

definition cliEnv0 :: pre_env where
  "cliEnv0 = \<lparr>vendorOnly = False, commandPath = [''zarf'', ''package'', ''deploy''],
     hasParent = True, parseLevelOk = (\<lambda>l. l \<in> set [''info'', ''debug'', ''warn'', ''error'']),
     loggerNewOk = True, ciEnv = False, createTempOk = True, useLogFileOk = True,
     printViperOk = True\<rparr>"

definition cliGlobals0 :: "bool \<Rightarrow> cli_globals" where
  "cliGlobals0 insecure =
     \<lparr>commonOptions = \<lparr>Insecure = insecure, InsecureSkipTLSVerify = False, PlainHTTP = False,
                         CachePath = ''/cache'', TempDirectory = ''/tmp''\<rparr>,
      LogLevelCLI = ''info'', LogFormat = ''console'', SkipLogFile = False, NoColor = False\<rparr>"

section \<open>Concrete inputs for package images\<close>

definition layerOf :: "string \<Rightarrow> int64 \<Rightarrow> string \<Rightarrow> Layer" where
  "layerOf hex sz mt =
     \<lparr>layerDigest = Inr \<lparr>Algorithm = ''sha256'', Hex = hex\<rparr>, layerSize = Inr sz,
      layerMediaType = Inr mt\<rparr>"

definition imageOf :: "int64 \<Rightarrow> int64 \<Rightarrow> Layer list \<Rightarrow> v1Image" where
  "imageOf manifestSize cfgSize layers =
     \<lparr>imageSize = Inr manifestSize, imageManifest = Inr \<lparr>configSize = cfgSize\<rparr>,
      imageLayers = Inr layers\<rparr>"

definition layersA :: "Layer list" where
  "layersA = [layerOf ''aa'' 10 ''layer.tar+gzip'', layerOf ''bb'' 20 ''layer.tar+gzip'',
              layerOf ''cc'' 30 ''layer.tar+gzip'']"

definition imgA :: v1Image where
  "imgA = imageOf 400 100 layersA"

definition imgHelm :: v1Image where
  "imgHelm = imageOf 300 50 [layerOf ''dd'' 5 ''helm.chart.content'']"

definition indexEntries :: "index_entry list" where
  "indexEntries =
     [\<lparr>entryDigest = \<lparr>Algorithm = ''sha256'', Hex = ''a1''\<rparr>, entryPlatform = Some ''linux/amd64''\<rparr>,
      \<lparr>entryDigest = \<lparr>Algorithm = ''sha256'', Hex = ''b2''\<rparr>, entryPlatform = Some ''linux/arm64''\<rparr>]"



definition manifestDesc :: Descriptor where
  "manifestDesc = \<lparr>MediaType = ''image.manifest'', Manifest = ''{manifest}''\<rparr>"

text \<open>
  A machine on which every call succeeds: the registry serves \<open>imgA\<close> under any name, the
  tarball loader and the daemon too, and every write to the layout goes through.
\<close>

definition env0 :: lib_env where
  "env0 =
     \<lparr>IsIndex = (\<lambda>m. m = ''image.index''),
      IsLayer = (\<lambda>m. m = ''layer.tar+gzip''),
      unmarshalIndex = (\<lambda>s. if s = ''{index}'' then Inr indexEntries else Inl ''invalid character''),
      goosWindows = False,
      filepathJoin = (\<lambda>p f. p @ ''/'' @ f),
      sha256 = (\<lambda>c. ''#'' @ c),
      createDirectory = (\<lambda>d. None),
      layoutWrite = (\<lambda>d. None),
      craneLoad = (\<lambda>r. Inr imgA),
      parseReference = (\<lambda>r. Inr r),
      craneGet = (\<lambda>r n. Inr manifestDesc),
      cranePull = (\<lambda>r. Inr imgA),
      newDockerCli = None,
      cliInitialize = None,
      getMetadata = None,
      endpointFromContext = Inr ''unix:///var/run/docker.sock'',
      newClient = (\<lambda>h. None),
      imageInspect = (\<lambda>r. Inr 160),
      daemonImage = (\<lambda>r opn. Inr imgA),
      cacheImage = (\<lambda>d img. img),
      partialDescriptor = (\<lambda>img. None),
      ctxDone = (\<lambda>evs. False),
      cancelSeen = (\<lambda>evs. False),
      writeImage = (\<lambda>w img. (None, theDisk w)),
      appendDescriptor = (\<lambda>w info. (None, theDisk w)),
      appendImage = (\<lambda>w img info. (None, theDisk w)),
      statErr = (\<lambda>p. None),
      removeErr = (\<lambda>p. None),
      hashErr = (\<lambda>p. None),
      renameErr = (\<lambda>p q. None),
      fetchOrder = [],
      errWrittenBy = (\<lambda>ref. None)\<rparr>"

definition cacheFiles0 :: "string \<Rightarrow> cache_file option" where
  "cacheFiles0 =
     (\<lambda>p. None)(''/c/sha256:aa'' := Some \<lparr>fileSize = 10\<rparr>, ''/c/sha256:bb'' := Some \<lparr>fileSize = 7\<rparr>)"

definition refA :: transform_Image where
  "refA = \<lparr>Reference = ''reg.io/a:1'', Name = ''reg.io/a'', Tag = ''1'', Digest = []\<rparr>"

definition refB :: transform_Image where
  "refB = \<lparr>Reference = ''reg.io/b:2'', Name = ''reg.io/b'', Tag = ''2'', Digest = []\<rparr>"





definition cfgA :: PullConfig where
  "cfgA = \<lparr>DestinationDirectory = ''/dst'', ImageList = [refA], Arch = ''amd64'',
           RegistryOverrides = [], CacheDirectory = ''/c''\<rparr>"

text \<open>
  A layout directory as a save might leave it: one blob under a wrong name, one under its
  hash, and a file in a subdirectory.
\<close>

definition blobsBefore :: tree where
  "blobsBefore =
     [([''aaa''], File ''x''), ([''#y''], File ''y''), ([''sub''], Directory),
      ([''sub'', ''f''], File ''z'')]"

definition worldBlobs :: world where
  "worldBlobs = \<lparr>events = [], theDisk = \<lparr>files = (\<lambda>p. None), blobs = RootDir blobsBefore\<rparr>\<rparr>"

definition blobsAfter :: tree where
  "blobsAfter =
     [([''#z''], File ''z''), ([''#x''], File ''x''), ([''#y''], File ''y''), ([''sub''], Directory)]"

definition pullTraceA :: "event list" where
  "pullTraceA =
     [EvGet ''reg.io/a:1'', EvRemotePull ''reg.io/a:1'', EvCacheImage ''reg.io/a:1'' ''/c'',
      EvProgressBar 560, EvSaveStart Concurrent [refA], EvWriteImage refA True,
      EvAppendDescriptor refA True]"

definition cfgNoCache :: PullConfig where
  "cfgNoCache = \<lparr>DestinationDirectory = ''/dst'', ImageList = [refA], Arch = ''amd64'',
                 RegistryOverrides = [], CacheDirectory = []\<rparr>"

definition fetchState0 :: fetch_state where
  "fetchState0 = \<lparr>fEvents = [], dockerEndPointHost = [], totalBytes = 0, shas = [], fetched = []\<rparr>"






definition refTar :: transform_Image where
  "refTar = \<lparr>Reference = ''/images/app.tar'', Name = ''/images/app.tar'', Tag = [], Digest = []\<rparr>"

definition cfgTar :: PullConfig where
  "cfgTar = \<lparr>DestinationDirectory = ''/dst'', ImageList = [refTar], Arch = ''amd64'',
             RegistryOverrides = [], CacheDirectory = []\<rparr>"

definition msg429 :: string where
  "msg429 = ''GET https://reg.io/v2/a/manifests/1: '' @ ''unexpected status code 429 Too Many Requests'' @ []"


text \<open>A registry that rate-limits every request, next to a daemon that holds the image.\<close>

definition envRateLimited :: lib_env where
  "envRateLimited = env0\<lparr>craneGet := (\<lambda>r n. Inl msg429)\<rparr>"

text \<open>A registry that cannot be reached.\<close>

definition envDown :: lib_env where
  "envDown = env0\<lparr>craneGet := (\<lambda>r n. Inl ''connection refused'')\<rparr>"

definition refNginx :: transform_Image where
  "refNginx = \<lparr>Reference = ''docker.io/nginx:1'', Name = ''docker.io/nginx'', Tag = ''1'', Digest = []\<rparr>"

definition cfgOverride :: PullConfig where
  "cfgOverride = \<lparr>DestinationDirectory = ''/dst'', ImageList = [refNginx], Arch = ''amd64'',
                  RegistryOverrides = [(''docker.io'', ''mirror.lan''), (''ghcr.io'', ''mirror.lan'')],
                  CacheDirectory = []\<rparr>"


text \<open>A reference parser that rejects a repository name with capital letters.\<close>

definition envStrict :: lib_env where
  "envStrict =
     env0\<lparr>parseReference := (\<lambda>r. if r = ''reg.io/App:1'' then Inl ''could not parse reference''
                                  else Inr r)\<rparr>"

definition refBad :: transform_Image where
  "refBad = \<lparr>Reference = ''reg.io/App:1'', Name = ''reg.io/App'', Tag = ''1'', Digest = []\<rparr>"



text \<open>
  Two tarballs, the second of which cannot be loaded; its goroutine reads from \<open>err\<close> the
  nil that the goroutine of the first has written.
\<close>

definition refTarBad :: transform_Image where
  "refTarBad = \<lparr>Reference = ''/images/bad.tar'', Name = ''bad'', Tag = [], Digest = []\<rparr>"

definition cfgTwoTars :: PullConfig where
  "cfgTwoTars = \<lparr>DestinationDirectory = ''/dst'', ImageList = [refTar, refTarBad], Arch = ''amd64'',
                 RegistryOverrides = [], CacheDirectory = []\<rparr>"

definition envRace :: lib_env where
  "envRace =
     env0\<lparr>craneLoad := (\<lambda>r. if r = ''/images/bad.tar'' then Inl ''no such file'' else Inr imgA),
          errWrittenBy := (\<lambda>r. if r = ''/images/bad.tar'' then Some ''/images/app.tar'' else None)\<rparr>"

section \<open>Properties of the CLI pre-run\<close>

lemma preRun_options: "commonOptions (snd (preRun env g)) = applyInsecure (commonOptions g)"
  by (simp add: preRun_def Let_def split: option.splits)

text \<open>
  C9: in the CLI pre-run, whenever the deprecated insecure option is set, both
  \<open>InsecureSkipTLSVerify\<close> and \<open>PlainHTTP\<close> are true when \<open>preRun\<close> returns, on every
  return path; when the insecure option is not set, the common options are left as they
  were.
\<close>

theorem preRun_insecure:
  "(Insecure (commonOptions g) \<longrightarrow>
      InsecureSkipTLSVerify (commonOptions (snd (preRun env g))) \<and>
      PlainHTTP (commonOptions (snd (preRun env g))) \<and>
      Insecure (commonOptions (snd (preRun env g)))) \<and>
   (\<not> Insecure (commonOptions g) \<longrightarrow> commonOptions (snd (preRun env g)) = commonOptions g)"
  by (simp add: preRun_options applyInsecure_def)

theorem preRun_insecure_witness:
  "Insecure (commonOptions (cliGlobals0 True)) \<and>
   fst (preRun cliEnv0 (cliGlobals0 True)) = None \<and>
   InsecureSkipTLSVerify (commonOptions (snd (preRun cliEnv0 (cliGlobals0 True)))) \<and>
   PlainHTTP (commonOptions (snd (preRun cliEnv0 (cliGlobals0 True)))) \<and>
   \<not> Insecure (commonOptions (cliGlobals0 False)) \<and>
   commonOptions (snd (preRun cliEnv0 (cliGlobals0 False))) = commonOptions (cliGlobals0 False) \<and>
   \<not> PlainHTTP (commonOptions (snd (preRun cliEnv0 (cliGlobals0 False))))"
proof -
  have a: "Insecure (commonOptions (cliGlobals0 True))"
    and b: "\<not> Insecure (commonOptions (cliGlobals0 False))"
    by (simp_all add: cliGlobals0_def)
  have c: "fst (preRun cliEnv0 (cliGlobals0 True)) = None"
    by (simp add: preRun_def cliEnv0_def cliGlobals0_def setupLogger_def SetupMessage_def
        applyInsecure_def Let_def)
  have d: "\<not> PlainHTTP (commonOptions (cliGlobals0 False))"
    by (simp add: cliGlobals0_def)
  from preRun_insecure [of "cliGlobals0 True" cliEnv0] preRun_insecure [of "cliGlobals0 False" cliEnv0]
    a b c d show ?thesis by simp
qed

section \<open>Properties of package exec\<close>

text \<open>
  C10: for every configuration and argument list, \<open>CmdWithContext\<close> called with an empty
  command string returns an error and empty stdout and stderr strings, starts no process
  and prints nothing; \<open>Cmd\<close> and \<open>CmdWithPrint\<close>, which delegate to it, behave the same.
\<close>

theorem CmdWithContext_empty_command:
  "CmdWithContext os config [] args w = (([], [], Some ErrCommandRequired), w) \<and>
   Cmd os [] args w = (([], [], Some ErrCommandRequired), w) \<and>
   CmdWithPrint os [] args w = (Some ErrCommandRequired, w)"
  by (simp add: CmdWithContext_def Cmd_def CmdWithPrint_def)

section \<open>Properties of CleanupInProgressLayers\<close>

lemma cleanupLayer_ok:
  assumes "cleanupLayer env cd l fs = (None, fs')"
  shows "(\<exists>d sz. layerDigest l = Inr d \<and> layerSize l = Inr sz) \<and>
         fs' = (\<lambda>loc. if staleAt env cd fs loc l then None else fs loc)"
proof -
  from assms obtain d sz where ds: "layerDigest l = Inr d" "layerSize l = Inr sz"
    by (auto simp: cleanupLayer_def split: sum.splits)
  have "fs' loc = (if staleAt env cd fs loc l then None else fs loc)" for loc
    using assms ds
    by (cases "fs (layerCachePath env cd d)"; cases "statErr env (layerCachePath env cd d)";
        cases "removeErr env (layerCachePath env cd d)"; cases "fs loc")
       (auto simp: cleanupLayer_def staleAt_def osStat_def Let_def split: if_splits)
  with ds show ?thesis by auto
qed

lemma staleAt_removed:
  "staleAt env cd (\<lambda>loc. if staleAt env cd fs loc l0 then None else fs loc) loc l
     = (staleAt env cd fs loc l \<and> \<not> staleAt env cd fs loc l0)"
  by (auto simp: staleAt_def split: sum.splits option.splits)

lemma cleanupLayers_ok:
  "cleanupLayers env cd ls fs = (None, fs') \<Longrightarrow>
     list_all (\<lambda>l. \<exists>d sz. layerDigest l = Inr d \<and> layerSize l = Inr sz) ls \<and>
     fs' = (\<lambda>loc. if list_ex (staleAt env cd fs loc) ls then None else fs loc)"
proof (induction ls arbitrary: fs fs')
  case Nil
  then show ?case by simp
next
  case (Cons l ls)
  obtain e1 fs1 where s1: "cleanupLayer env cd l fs = (e1, fs1)"
    by (cases "cleanupLayer env cd l fs")
  obtain e2 fs2 where s2: "cleanupLayers env cd ls fs1 = (e2, fs2)"
    by (cases "cleanupLayers env cd ls fs1")
  from Cons.prems s1 s2 have e: "e1 = None" "e2 = None" "fs2 = fs'"
    by (auto split: option.splits)
  note a = cleanupLayer_ok [OF s1 [unfolded e]]
  note b = Cons.IH [OF s2 [unfolded e]]
  from a b show ?case
    by (auto simp: fun_eq_iff staleAt_removed)
qed

lemma cleanupLayers_complete:
  assumes "list_all (\<lambda>l. \<exists>d sz. layerDigest l = Inr d \<and> layerSize l = Inr sz) ls"
  shows "list_all (cacheFileComplete env cd
           (\<lambda>loc. if list_ex (staleAt env cd fs loc) ls then None else fs loc)) ls"
  using assms
  by (auto simp: list_all_iff list_ex_iff cacheFileComplete_def staleAt_def
      split: sum.splits option.splits)

text \<open>
  C5: when \<open>CleanupInProgressLayers\<close> returns no error, it has removed exactly the cache
  files that belong to a layer of the image and whose size on disk differs from the size
  that layer declares, every other path is as before, and every layer's cache file is now
  absent or of the declared size. A layer with no cache file is passed over without error,
  and so is a layer whose cache file has the declared size.
\<close>

theorem CleanupInProgressLayers_removes_stale:
  "(CleanupInProgressLayers env img cacheDirectory fs = (None, fs') \<longrightarrow>
      (\<exists>layers. imageLayers img = Inr layers \<and>
         (\<forall>location. fs' location =
            (if list_ex (staleAt env cacheDirectory fs location) layers then None else fs location)) \<and>
         list_all (cacheFileComplete env cacheDirectory fs') layers)) \<and>
   (layerDigest layer = Inr digest \<and> layerSize layer = Inr sz \<and>
    fs (layerCachePath env cacheDirectory digest) = None \<longrightarrow>
      cleanupLayer env cacheDirectory layer fs = (None, fs)) \<and>
   (layerDigest layer = Inr digest \<and> layerSize layer = Inr sz \<and>
    fs (layerCachePath env cacheDirectory digest) = Some info \<and> fileSize info = sz \<and>
    statErr env (layerCachePath env cacheDirectory digest) = None \<longrightarrow>
      cleanupLayer env cacheDirectory layer fs = (None, fs))"
proof (intro conjI impI)
  assume run: "CleanupInProgressLayers env img cacheDirectory fs = (None, fs')"
  then obtain layers where l: "imageLayers img = Inr layers"
    and c: "cleanupLayers env cacheDirectory layers fs = (None, fs')"
    by (auto simp: CleanupInProgressLayers_def split: sum.splits)
  from cleanupLayers_ok [OF c] cleanupLayers_complete [of layers env cacheDirectory fs] l
  show "\<exists>layers. imageLayers img = Inr layers \<and>
         (\<forall>location. fs' location =
            (if list_ex (staleAt env cacheDirectory fs location) layers then None else fs location)) \<and>
         list_all (cacheFileComplete env cacheDirectory fs') layers"
    by auto
next
  assume "layerDigest layer = Inr digest \<and> layerSize layer = Inr sz \<and>
    fs (layerCachePath env cacheDirectory digest) = None"
  then show "cleanupLayer env cacheDirectory layer fs = (None, fs)"
    by (simp add: cleanupLayer_def osStat_def)
next
  assume "layerDigest layer = Inr digest \<and> layerSize layer = Inr sz \<and>
    fs (layerCachePath env cacheDirectory digest) = Some info \<and> fileSize info = sz \<and>
    statErr env (layerCachePath env cacheDirectory digest) = None"
  then show "cleanupLayer env cacheDirectory layer fs = (None, fs)"
    by (simp add: cleanupLayer_def osStat_def)
qed

theorem CleanupInProgressLayers_removes_stale_witness:
  "CleanupInProgressLayers env0 imgA ''/c'' cacheFiles0
     = (None, cacheFiles0(''/c/sha256:bb'' := None)) \<and>
   imageLayers imgA = Inr layersA \<and>
   (cacheFiles0(''/c/sha256:bb'' := None)) ''/c/sha256:aa'' = Some \<lparr>fileSize = 10\<rparr> \<and>
   (cacheFiles0(''/c/sha256:bb'' := None)) ''/c/sha256:bb'' = None \<and>
   list_all (cacheFileComplete env0 ''/c'' (cacheFiles0(''/c/sha256:bb'' := None))) layersA \<and>
   cacheFiles0 (layerCachePath env0 ''/c'' \<lparr>Algorithm = ''sha256'', Hex = ''cc''\<rparr>) = None \<and>
   cleanupLayer env0 ''/c'' (layerOf ''cc'' 30 ''layer.tar+gzip'') cacheFiles0 = (None, cacheFiles0) \<and>
   cacheFiles0 (layerCachePath env0 ''/c'' \<lparr>Algorithm = ''sha256'', Hex = ''aa''\<rparr>)
     = Some \<lparr>fileSize = 10\<rparr> \<and>
   cleanupLayer env0 ''/c'' (layerOf ''aa'' 10 ''layer.tar+gzip'') cacheFiles0 = (None, cacheFiles0)"
proof -
  have run: "CleanupInProgressLayers env0 imgA ''/c'' cacheFiles0
               = (None, cacheFiles0(''/c/sha256:bb'' := None))"
    by (simp add: CleanupInProgressLayers_def imgA_def imageOf_def layersA_def layerOf_def
        cleanupLayer_def osStat_def layerCachePath_def Hash_String_def env0_def cacheFiles0_def
        fun_upd_twist)
  have la: "imageLayers imgA = Inr layersA"
    by (simp add: imgA_def imageOf_def)
  have cc: "layerDigest (layerOf ''cc'' 30 ''layer.tar+gzip'') = Inr \<lparr>Algorithm = ''sha256'', Hex = ''cc''\<rparr> \<and>
            layerSize (layerOf ''cc'' 30 ''layer.tar+gzip'') = Inr 30 \<and>
            cacheFiles0 (layerCachePath env0 ''/c'' \<lparr>Algorithm = ''sha256'', Hex = ''cc''\<rparr>) = None"
    by (simp add: layerOf_def layerCachePath_def Hash_String_def env0_def cacheFiles0_def)
  have aa: "layerDigest (layerOf ''aa'' 10 ''layer.tar+gzip'') = Inr \<lparr>Algorithm = ''sha256'', Hex = ''aa''\<rparr> \<and>
            layerSize (layerOf ''aa'' 10 ''layer.tar+gzip'') = Inr 10 \<and>
            cacheFiles0 (layerCachePath env0 ''/c'' \<lparr>Algorithm = ''sha256'', Hex = ''aa''\<rparr>)
              = Some \<lparr>fileSize = 10\<rparr> \<and> fileSize \<lparr>fileSize = 10\<rparr> = (10 :: int64) \<and>
            statErr env0 (layerCachePath env0 ''/c'' \<lparr>Algorithm = ''sha256'', Hex = ''aa''\<rparr>) = None"
    by (simp add: layerOf_def layerCachePath_def Hash_String_def env0_def cacheFiles0_def)
  note t1 = CleanupInProgressLayers_removes_stale [of env0 imgA "''/c''" cacheFiles0
      "cacheFiles0(''/c/sha256:bb'' := None)" "layerOf ''cc'' 30 ''layer.tar+gzip''"
      "\<lparr>Algorithm = ''sha256'', Hex = ''cc''\<rparr>" 30]
  note t2 = CleanupInProgressLayers_removes_stale [of env0 imgA "''/c''" cacheFiles0
      "cacheFiles0(''/c/sha256:bb'' := None)" "layerOf ''aa'' 10 ''layer.tar+gzip''"
      "\<lparr>Algorithm = ''sha256'', Hex = ''aa''\<rparr>" 10 "\<lparr>fileSize = 10\<rparr>"]
  from t1 run la cc have a: "list_all (cacheFileComplete env0 ''/c'' (cacheFiles0(''/c/sha256:bb'' := None))) layersA"
    and b: "cleanupLayer env0 ''/c'' (layerOf ''cc'' 30 ''layer.tar+gzip'') cacheFiles0 = (None, cacheFiles0)"
    by auto
  from t2 aa have c: "cleanupLayer env0 ''/c'' (layerOf ''aa'' 10 ''layer.tar+gzip'') cacheFiles0 = (None, cacheFiles0)"
    by blast
  have d: "(cacheFiles0(''/c/sha256:bb'' := None)) ''/c/sha256:aa'' = Some \<lparr>fileSize = 10\<rparr>"
    "(cacheFiles0(''/c/sha256:bb'' := None)) ''/c/sha256:bb'' = None"
    by (simp_all add: cacheFiles0_def)
  from run la a b c d cc aa show ?thesis by simp
qed

section \<open>Properties of the save phase\<close>

lemma savedKeys_append [simp]: "savedKeys (a @ b) = savedKeys a @ savedKeys b"
  by (simp add: savedKeys_def)

lemma startsOf_append [simp]: "startsOf (a @ b) = startsOf a @ startsOf b"
  by (simp add: startsOf_def)

lemma savedKeys_simps [simp]:
  "savedKeys [] = []" "savedKeys (e # es) = savedBy e @ savedKeys es"
  by (simp_all add: savedKeys_def)

lemma startsOf_simps [simp]:
  "startsOf [] = []" "startsOf (e # es) = startOf e @ startsOf es"
  by (simp_all add: startsOf_def)

lemma removedInTime_step:
  "startOf e = [] \<Longrightarrow>
   removedInTime remaining (e # es) = removedInTime (filter (\<lambda>k. k \<notin> set (savedBy e)) remaining) es"
  by (cases e) simp_all

lemma removedInTime_append:
  "startsOf a = [] \<Longrightarrow>
   removedInTime remaining (a @ b) = removedInTime (filter (\<lambda>k. k \<notin> set (savedKeys a)) remaining) b"
proof (induction a arbitrary: remaining)
  case Nil
  then show ?case by simp
next
  case (Cons e a)
  then have e: "startOf e = []" and a: "startsOf a = []" by simp_all
  show ?case
    using Cons.IH [OF a] by (simp add: removedInTime_step [OF e] conj_commute)
qed

lemma cleanup_events [simp]:
  "events (cleanupAfterFailure env info img cd w) = events w @ [EvCleanup info]"
  by (simp add: cleanupAfterFailure_def addEvent_def split: prod.splits)

lemma addEvent_events [simp]: "events (addEvent e w) = events w @ [e]"
  by (simp add: addEvent_def)

lemma worker_events:
  assumes "saveConcurrentWorker env cd info img fb w = (err, w')"
  shows "\<exists>ev. events w' = events w @ ev \<and> startsOf ev = [] \<and>
              savedKeys ev = (if err = None then [info] else [])"
  using assms
  by (auto simp: saveConcurrentWorker_def Let_def split: if_splits option.splits sum.splits prod.splits)

lemma concurrentLoop_events:
  assumes "saveConcurrentLoop env cd m saved ferr w = (saved', err, w')"
    and "distinct (map fst m)"
  shows "\<exists>ev. events w' = events w @ ev \<and> startsOf ev = [] \<and>
              distinct (savedKeys ev) \<and> set (savedKeys ev) \<subseteq> set (map fst m) \<and>
              set (map fst saved') = set (map fst saved) \<union> set (savedKeys ev) \<and>
              (err = None \<longleftrightarrow> ferr = None \<and> set (map fst m) \<subseteq> set (savedKeys ev))"
  using assms
proof (induction m arbitrary: saved ferr w)
  case Nil
  then show ?case by auto
next
  case (Cons kv m)
  obtain info img where kv: "kv = (info, img)" by (cases kv)
  obtain e1 w1 where s1: "saveConcurrentWorker env cd info img (ferr \<noteq> None) w = (e1, w1)"
    by (cases "saveConcurrentWorker env cd info img (ferr \<noteq> None) w")
  from worker_events [OF s1] obtain ev1 where ev1: "events w1 = events w @ ev1" "startsOf ev1 = []"
    "savedKeys ev1 = (if e1 = None then [info] else [])" by blast
  from Cons.prems(2) kv have d: "distinct (map fst m)" and ni: "info \<notin> set (map fst m)" by auto
  show ?case
  proof (cases e1)
    case None
    with Cons.prems(1) kv s1
    have r: "saveConcurrentLoop env cd m (AList.update info img saved) ferr w1 = (saved', err, w')"
      by simp
    from Cons.IH [OF r d] obtain ev where ev: "events w' = events w1 @ ev" "startsOf ev = []"
      "distinct (savedKeys ev)" "set (savedKeys ev) \<subseteq> set (map fst m)"
      "set (map fst saved') = set (map fst (AList.update info img saved)) \<union> set (savedKeys ev)"
      "(err = None \<longleftrightarrow> ferr = None \<and> set (map fst m) \<subseteq> set (savedKeys ev))" by blast
    show ?thesis
      apply (rule exI [of _ "ev1 @ ev"])
      using ev ev1 None ni kv by (auto simp: dom_update)
  next
    case (Some e)
    with Cons.prems(1) kv s1
    have r: "saveConcurrentLoop env cd m saved (case ferr of None \<Rightarrow> Some e | Some e0 \<Rightarrow> Some e0) w1
               = (saved', err, w')"
      by simp
    from Cons.IH [OF r d] obtain ev where ev: "events w' = events w1 @ ev" "startsOf ev = []"
      "distinct (savedKeys ev)" "set (savedKeys ev) \<subseteq> set (map fst m)"
      "set (map fst saved') = set (map fst saved) \<union> set (savedKeys ev)"
      "(err = None \<longleftrightarrow> (case ferr of None \<Rightarrow> Some e | Some e0 \<Rightarrow> Some e0) = None \<and> set (map fst m) \<subseteq> set (savedKeys ev))" by blast
    show ?thesis
      apply (rule exI [of _ "ev1 @ ev"])
      using ev ev1 Some ni kv by (auto split: option.splits)
  qed
qed


lemma sequentialLoop_events:
  assumes "saveSequentialLoop env cd m saved w = (saved', err, w')"
    and "distinct (map fst m)"
  shows "\<exists>ev. events w' = events w @ ev \<and> startsOf ev = [] \<and>
              distinct (savedKeys ev) \<and> set (savedKeys ev) \<subseteq> set (map fst m) \<and>
              set (map fst saved') = set (map fst saved) \<union> set (savedKeys ev) \<and>
              (err = None \<longleftrightarrow> set (map fst m) \<subseteq> set (savedKeys ev))"
  using assms
proof (induction m arbitrary: saved w)
  case Nil
  then show ?case by auto
next
  case (Cons kv m)
  obtain info img where kv: "kv = (info, img)" by (cases kv)
  from Cons.prems(2) kv have d: "distinct (map fst m)" and ni: "info \<notin> set (map fst m)" by auto
  show ?case
  proof (cases "getSizeOfImage img")
    case (Inl e)
    with Cons.prems(1) kv have "saved' = saved" "err = Some (ErrSizeOfImage e)" "w' = w" by auto
    then show ?thesis using kv by auto
  next
    case (Inr sz)
    obtain ae d1 where ap: "appendImage env w img info = (ae, d1)"
      by (cases "appendImage env w img info")
    show ?thesis
    proof (cases ae)
      case (Some e)
      with Cons.prems(1) kv Inr ap have "saved' = saved" "err = Some (ErrLib e)"
        "w' = cleanupAfterFailure env info img cd (addEvent (EvAppendImage info False) (w\<lparr>theDisk := d1\<rparr>))"
        by auto
      then show ?thesis using kv
        by (intro exI [of _ "[EvAppendImage info False, EvCleanup info]"]) auto
    next
      case None
      with Cons.prems(1) kv Inr ap
      have r: "saveSequentialLoop env cd m (AList.update info img saved)
                 (addEvent (EvAppendImage info True) (w\<lparr>theDisk := d1\<rparr>)) = (saved', err, w')"
        by simp
      from Cons.IH [OF r d] obtain ev where
        ev: "events w' = events (addEvent (EvAppendImage info True) (w\<lparr>theDisk := d1\<rparr>)) @ ev"
        "startsOf ev = []" "distinct (savedKeys ev)" "set (savedKeys ev) \<subseteq> set (map fst m)"
        "set (map fst saved') = set (map fst (AList.update info img saved)) \<union> set (savedKeys ev)"
        "(err = None \<longleftrightarrow> set (map fst m) \<subseteq> set (savedKeys ev))" by blast
      show ?thesis
        apply (rule exI [of _ "EvAppendImage info True # ev"])
        using ev ni kv by (auto simp: dom_update)
    qed
  qed
qed

lemma map_fst_deleteSaved:
  "map fst (deleteSaved saved tp) = filter (\<lambda>k. k \<notin> set (map fst saved)) (map fst tp)"
  by (simp add: deleteSaved_def filter_map comp_def)

lemma filter_all_removed: "set xs \<subseteq> S \<Longrightarrow> filter (\<lambda>k. k \<notin> S) xs = []"
  by (induction xs) auto

lemma concurrentAttempt_spec:
  assumes "concurrentAttempt env cd (tp, w) = (err, (tp', w'))" and "distinct (map fst tp)"
  shows "\<exists>ev. events w' = events w @ EvSaveStart Concurrent (map fst tp) # ev \<and> startsOf ev = [] \<and>
          distinct (savedKeys ev) \<and> set (savedKeys ev) \<subseteq> set (map fst tp) \<and>
          map fst tp' = filter (\<lambda>k. k \<notin> set (savedKeys ev)) (map fst tp) \<and>
          (err = None \<longrightarrow> tp' = [])"
proof -
  obtain saved w1 where r: "saveConcurrentLoop env cd tp [] None
      (addEvent (EvSaveStart Concurrent (map fst tp)) w) = (saved, err, w1)"
    and tp': "tp' = deleteSaved saved tp" and w1: "w' = w1"
    using assms(1) by (auto simp: concurrentAttempt_def SaveConcurrent_def split: prod.splits)
  from concurrentLoop_events [OF r assms(2)] obtain ev where
    ev: "events w1 = events (addEvent (EvSaveStart Concurrent (map fst tp)) w) @ ev"
    "startsOf ev = []" "distinct (savedKeys ev)" "set (savedKeys ev) \<subseteq> set (map fst tp)"
    "set (map fst saved) = set (savedKeys ev)"
    "(err = None \<longleftrightarrow> set (map fst tp) \<subseteq> set (savedKeys ev))" by auto
  have m: "map fst tp' = filter (\<lambda>k. k \<notin> set (savedKeys ev)) (map fst tp)"
    using ev(5) by (simp add: tp' map_fst_deleteSaved)
  have "err = None \<longrightarrow> tp' = []"
    using ev(6) m filter_all_removed [of "map fst tp" "set (savedKeys ev)"] by auto
  with ev m w1 show ?thesis by auto
qed

lemma sequentialAttempt_spec:
  assumes "sequentialAttempt env cd (tp, w) = (err, (tp', w'))" and "distinct (map fst tp)"
  shows "\<exists>ev. events w' = events w @ EvSaveStart Sequential (map fst tp) # ev \<and> startsOf ev = [] \<and>
          distinct (savedKeys ev) \<and> set (savedKeys ev) \<subseteq> set (map fst tp) \<and>
          map fst tp' = filter (\<lambda>k. k \<notin> set (savedKeys ev)) (map fst tp) \<and>
          (err = None \<longrightarrow> tp' = [])"
proof -
  obtain saved w1 where r: "saveSequentialLoop env cd tp []
      (addEvent (EvSaveStart Sequential (map fst tp)) w) = (saved, err, w1)"
    and tp': "tp' = deleteSaved saved tp" and w1: "w' = w1"
    using assms(1) by (auto simp: sequentialAttempt_def SaveSequential_def split: prod.splits)
  from sequentialLoop_events [OF r assms(2)] obtain ev where
    ev: "events w1 = events (addEvent (EvSaveStart Sequential (map fst tp)) w) @ ev"
    "startsOf ev = []" "distinct (savedKeys ev)" "set (savedKeys ev) \<subseteq> set (map fst tp)"
    "set (map fst saved) = set (savedKeys ev)"
    "(err = None \<longleftrightarrow> set (map fst tp) \<subseteq> set (savedKeys ev))" by auto
  have m: "map fst tp' = filter (\<lambda>k. k \<notin> set (savedKeys ev)) (map fst tp)"
    using ev(5) by (simp add: tp' map_fst_deleteSaved)
  have "err = None \<longrightarrow> tp' = []"
    using ev(6) m filter_all_removed [of "map fst tp" "set (savedKeys ev)"] by auto
  with ev m w1 show ?thesis by auto
qed


lemma removedInTime_app:
  "removedInTime remaining (a @ b) =
     (removedInTime remaining a \<and>
      removedInTime (filter (\<lambda>k. k \<notin> set (savedKeys a)) remaining) b)"
proof (induction a arbitrary: remaining)
  case Nil
  then show ?case by simp
next
  case (Cons e a)
  show ?case
  proof (cases "startOf e = []")
    case True
    show ?thesis
      using Cons.IH [of "filter (\<lambda>k. k \<notin> set (savedBy e)) remaining"]
      by (simp add: removedInTime_step [OF True] conj_commute)
  next
    case False
    then obtain s ks where e: "e = EvSaveStart s ks" by (cases e) auto
    show ?thesis using Cons.IH [of remaining] by (auto simp: e)
  qed
qed

lemma removedInTime_quiet: "startsOf a = [] \<Longrightarrow> removedInTime remaining a"
  using removedInTime_append [of a remaining "[]"] by simp

lemma retryTwice_spec:
  assumes spec: "\<And>tp w err tp' w'. f (tp, w) = (err, (tp', w')) \<Longrightarrow> distinct (map fst tp) \<Longrightarrow>
      \<exists>ev. events w' = events w @ EvSaveStart s (map fst tp) # ev \<and> startsOf ev = [] \<and>
          distinct (savedKeys ev) \<and> set (savedKeys ev) \<subseteq> set (map fst tp) \<and>
          map fst tp' = filter (\<lambda>k. k \<notin> set (savedKeys ev)) (map fst tp) \<and>
          (err = None \<longrightarrow> tp' = [])"
    and run: "retryTwice env f (tp, w) = (res, (tp', w'))"
    and d: "distinct (map fst tp)"
  shows "\<exists>new. events w' = events w @ new \<and> prefix (startsOf new) [s, s] \<and>
          removedInTime (map fst tp) new \<and> distinct (savedKeys new) \<and>
          set (savedKeys new) \<subseteq> set (map fst tp) \<and>
          map fst tp' = filter (\<lambda>k. k \<notin> set (savedKeys new)) (map fst tp) \<and>
          (res = None \<longrightarrow> tp' = []) \<and>
          (res \<noteq> None \<longrightarrow> ctxDone env (events w') \<or> startsOf new = [s, s]) \<and>
          (ctxDone env (events w) \<longrightarrow> new = [] \<and> res \<noteq> None)"
proof (cases "ctxDone env (events w)")
  case True
  with run have "res = Some (ErrContext ''context canceled'')" "tp' = tp" "w' = w"
    by (auto simp: retryTwice_def)
  with True show ?thesis by (intro exI [of _ "[]"]) auto
next
  case nd: False
  obtain e1 tp1 w1 where a1: "f (tp, w) = (e1, (tp1, w1))" by (metis prod.exhaust)
  from spec [OF a1 d] obtain ev1 where ev1: "events w1 = events w @ EvSaveStart s (map fst tp) # ev1"
    "startsOf ev1 = []" "distinct (savedKeys ev1)" "set (savedKeys ev1) \<subseteq> set (map fst tp)"
    "map fst tp1 = filter (\<lambda>k. k \<notin> set (savedKeys ev1)) (map fst tp)" "e1 = None \<longrightarrow> tp1 = []"
    by blast
  have q1: "removedInTime (map fst tp) (EvSaveStart s (map fst tp) # ev1)"
    using removedInTime_quiet [OF ev1(2)] by simp
  show ?thesis
  proof (cases e1)
    case None
    with run nd a1 have "res = None" "tp' = tp1" "w' = w1" by (auto simp: retryTwice_def)
    with ev1 q1 None nd show ?thesis
      by (intro exI [of _ "EvSaveStart s (map fst tp) # ev1"]) auto
  next
    case (Some e)
    show ?thesis
    proof (cases "ctxDone env (events w1)")
      case True
      with run nd a1 Some have "res = Some (ErrContext ''context canceled'')" "tp' = tp1" "w' = w1"
        by (auto simp: retryTwice_def)
      with ev1 q1 True nd show ?thesis
        by (intro exI [of _ "EvSaveStart s (map fst tp) # ev1"]) auto
    next
      case False
      obtain e2 tp2 w2 where a2: "f (tp1, w1) = (e2, (tp2, w2))" by (metis prod.exhaust)
      from run nd a1 Some False a2 have r: "res = e2" "tp' = tp2" "w' = w2"
        by (auto simp: retryTwice_def)
      have d1: "distinct (map fst tp1)" using d ev1(5) by simp
      from spec [OF a2 d1] obtain ev2 where
        ev2: "events w2 = events w1 @ EvSaveStart s (map fst tp1) # ev2"
        "startsOf ev2 = []" "distinct (savedKeys ev2)" "set (savedKeys ev2) \<subseteq> set (map fst tp1)"
        "map fst tp2 = filter (\<lambda>k. k \<notin> set (savedKeys ev2)) (map fst tp1)" "e2 = None \<longrightarrow> tp2 = []"
        by blast
      let ?new = "(EvSaveStart s (map fst tp) # ev1) @ (EvSaveStart s (map fst tp1) # ev2)"
      have q: "removedInTime (map fst tp) ?new"
        unfolding removedInTime_app using q1 removedInTime_quiet [OF ev2(2)] ev1(5) by simp
      have dj: "set (savedKeys ev1) \<inter> set (savedKeys ev2) = {}"
        using ev2(4) ev1(5) by auto
      have m: "map fst tp2 = filter (\<lambda>k. k \<notin> set (savedKeys ?new)) (map fst tp)"
        using ev2(5) ev1(5) by (auto intro: filter_cong)
      have sub: "set (savedKeys ?new) \<subseteq> set (map fst tp)"
        using ev1(4) ev2(4) ev1(5) by auto
      show ?thesis
        apply (rule exI [of _ ?new])
        using q dj m sub ev1 ev2 r nd by auto
    qed
  qed
qed

lemma savePhase_spec:
  assumes run: "savePhase env cd tp w = (res, (tp', w'))"
    and d: "distinct (map fst tp)"
  shows "\<exists>new. events w' = events w @ new \<and>
          prefix (startsOf new) [Concurrent, Concurrent, Sequential, Sequential] \<and>
          removedInTime (map fst tp) new \<and> distinct (savedKeys new) \<and>
          set (savedKeys new) \<subseteq> set (map fst tp) \<and>
          map fst tp' = filter (\<lambda>k. k \<notin> set (savedKeys new)) (map fst tp) \<and>
          (res = None \<longrightarrow> tp' = []) \<and>
          (res \<noteq> None \<longrightarrow> ctxDone env (events w') \<or>
             startsOf new = [Concurrent, Concurrent, Sequential, Sequential])"
proof -
  obtain r1 tp1 w1 where a1: "retryTwice env (concurrentAttempt env cd) (tp, w) = (r1, (tp1, w1))"
    by (metis prod.exhaust)
  have "\<exists>new. events w1 = events w @ new \<and> prefix (startsOf new) [Concurrent, Concurrent] \<and>
          removedInTime (map fst tp) new \<and> distinct (savedKeys new) \<and>
          set (savedKeys new) \<subseteq> set (map fst tp) \<and>
          map fst tp1 = filter (\<lambda>k. k \<notin> set (savedKeys new)) (map fst tp) \<and>
          (r1 = None \<longrightarrow> tp1 = []) \<and>
          (r1 \<noteq> None \<longrightarrow> ctxDone env (events w1) \<or> startsOf new = [Concurrent, Concurrent]) \<and>
          (ctxDone env (events w) \<longrightarrow> new = [] \<and> r1 \<noteq> None)"
    by (rule retryTwice_spec [OF _ a1 d]) (rule concurrentAttempt_spec, assumption+)
  then obtain n1 where n1: "events w1 = events w @ n1" "prefix (startsOf n1) [Concurrent, Concurrent]"
    "removedInTime (map fst tp) n1" "distinct (savedKeys n1)" "set (savedKeys n1) \<subseteq> set (map fst tp)"
    "map fst tp1 = filter (\<lambda>k. k \<notin> set (savedKeys n1)) (map fst tp)" "r1 = None \<longrightarrow> tp1 = []"
    "r1 \<noteq> None \<longrightarrow> ctxDone env (events w1) \<or> startsOf n1 = [Concurrent, Concurrent]"
    by blast
  have p1: "prefix (startsOf n1) [Concurrent, Concurrent, Sequential, Sequential]"
    using n1(2) prefix_order.trans [of "startsOf n1" "[Concurrent, Concurrent]"
        "[Concurrent, Concurrent, Sequential, Sequential]"] by simp
  show ?thesis
  proof (cases r1)
    case None
    with run a1 have "res = None" "tp' = tp1" "w' = w1" by (auto simp: savePhase_def)
    with n1 p1 None show ?thesis by (intro exI [of _ n1]) auto
  next
    case (Some e)
    with run a1 have a2: "retryTwice env (sequentialAttempt env cd) (tp1, w1) = (res, (tp', w'))"
      by (auto simp: savePhase_def)
    have d1: "distinct (map fst tp1)" using d n1(6) by simp
    have "\<exists>new. events w' = events w1 @ new \<and> prefix (startsOf new) [Sequential, Sequential] \<and>
            removedInTime (map fst tp1) new \<and> distinct (savedKeys new) \<and>
            set (savedKeys new) \<subseteq> set (map fst tp1) \<and>
            map fst tp' = filter (\<lambda>k. k \<notin> set (savedKeys new)) (map fst tp1) \<and>
            (res = None \<longrightarrow> tp' = []) \<and>
            (res \<noteq> None \<longrightarrow> ctxDone env (events w') \<or> startsOf new = [Sequential, Sequential]) \<and>
            (ctxDone env (events w1) \<longrightarrow> new = [] \<and> res \<noteq> None)"
      by (rule retryTwice_spec [OF _ a2 d1]) (rule sequentialAttempt_spec, assumption+)
    then obtain n2 where n2: "events w' = events w1 @ n2" "prefix (startsOf n2) [Sequential, Sequential]"
      "removedInTime (map fst tp1) n2" "distinct (savedKeys n2)" "set (savedKeys n2) \<subseteq> set (map fst tp1)"
      "map fst tp' = filter (\<lambda>k. k \<notin> set (savedKeys n2)) (map fst tp1)" "res = None \<longrightarrow> tp' = []"
      "res \<noteq> None \<longrightarrow> ctxDone env (events w') \<or> startsOf n2 = [Sequential, Sequential]"
      "ctxDone env (events w1) \<longrightarrow> n2 = [] \<and> res \<noteq> None"
      by blast
    have q: "removedInTime (map fst tp) (n1 @ n2)"
      unfolding removedInTime_app using n1(3) n2(3) n1(6) by simp
    have dj: "set (savedKeys n1) \<inter> set (savedKeys n2) = {}"
      using n2(5) n1(6) by auto
    have m: "map fst tp' = filter (\<lambda>k. k \<notin> set (savedKeys (n1 @ n2))) (map fst tp)"
      using n2(6) n1(6) by (auto intro: filter_cong)
    have sub: "set (savedKeys (n1 @ n2)) \<subseteq> set (map fst tp)"
      using n1(5) n2(5) n1(6) by auto
    have pf: "prefix (startsOf (n1 @ n2)) [Concurrent, Concurrent, Sequential, Sequential]"
    proof (cases "ctxDone env (events w1)")
      case True
      with n2(9) p1 show ?thesis by simp
    next
      case False
      with n1(8) Some have "startsOf n1 = [Concurrent, Concurrent]" by simp
      with n2(2) show ?thesis by simp
    qed
    have fin: "res \<noteq> None \<longrightarrow> ctxDone env (events w') \<or>
             startsOf (n1 @ n2) = [Concurrent, Concurrent, Sequential, Sequential]"
    proof (cases "ctxDone env (events w1)")
      case True
      with n2(9) n2(1) show ?thesis by simp
    next
      case False
      with n1(8) Some have "startsOf n1 = [Concurrent, Concurrent]" by simp
      with n2(8) show ?thesis by auto
    qed
    show ?thesis
      apply (rule exI [of _ "n1 @ n2"])
      using q dj m sub pf fin n1 n2 by auto
  qed
qed




section \<open>Properties of the blob repair\<close>

lemma map_of_filter_key:
  "map_of (filter (\<lambda>kv. P (fst kv)) t) q = (if P q then map_of t q else None)"
  by (induction t) auto

lemma osRename_inv:
  assumes "osRename env p [sha256 env c] c t = Inr t1"
    and "map_of t p = Some (File c)"
    and "\<forall>q d. map_of t q = Some (File d) \<longrightarrow> q \<in> set (p # ps) \<or> q = [sha256 env d]"
  shows "\<forall>q d. map_of t1 q = Some (File d) \<longrightarrow> q \<in> set ps \<or> q = [sha256 env d]"
proof (cases "p = [sha256 env c]")
  case True
  with assms(1) have "t1 = t"
    by (auto simp: osRename_def split: option.splits if_splits)
  with True assms(2,3) show ?thesis
    by (metis node.inject option.inject set_ConsD)
next
  case False
  with assms(1) have t1: "t1 = ([sha256 env c], File c) #
      filter (\<lambda>kv. fst kv \<noteq> p \<and> fst kv \<noteq> [sha256 env c]) t"
    by (auto simp: osRename_def split: option.splits if_splits)
  show ?thesis
    using assms(3) unfolding t1
    by (auto simp: map_of_filter_key [where P = "\<lambda>k. k \<noteq> p \<and> k \<noteq> [sha256 env c]"]
        split: if_splits)
qed

lemma repairBlob_inv:
  assumes "repairBlob env p t = Inr t1"
    and "\<forall>q d. map_of t q = Some (File d) \<longrightarrow> q \<in> set (p # ps) \<or> q = [sha256 env d]"
  shows "\<forall>q d. map_of t1 q = Some (File d) \<longrightarrow> q \<in> set ps \<or> q = [sha256 env d]"
proof (cases "map_of t p")
  case None
  with assms show ?thesis by (simp add: repairBlob_def)
next
  case (Some n)
  show ?thesis
  proof (cases n)
    case (File c)
    with Some assms(1) have "osRename env p [sha256 env c] c t = Inr t1"
      by (auto simp: repairBlob_def split: option.splits)
    from osRename_inv [OF this _ assms(2)] Some File show ?thesis by simp
  next
    case Directory
    with Some assms(1) have "t1 = t" by (auto simp: repairBlob_def)
    with Some Directory assms(2) show ?thesis
      by (metis node.distinct(1) option.inject set_ConsD)
  qed
qed

lemma walkEntries_inv:
  "walkEntries env ps t = (None, t') \<Longrightarrow>
   \<forall>q d. map_of t q = Some (File d) \<longrightarrow> q \<in> set ps \<or> q = [sha256 env d] \<Longrightarrow>
   \<forall>q d. map_of t' q = Some (File d) \<longrightarrow> q = [sha256 env d]"
proof (induction ps arbitrary: t)
  case Nil
  then show ?case by simp
next
  case (Cons p ps)
  from Cons.prems(1) obtain t1 where r: "repairBlob env p t = Inr t1"
    and w: "walkEntries env ps t1 = (None, t')"
    by (auto split: sum.splits)
  from Cons.IH [OF w repairBlob_inv [OF r Cons.prems(2)]] show ?case .
qed

lemma walkBlobs_names:
  assumes "walkBlobs env root = (None, root')"
  shows "\<exists>t. root' = RootDir t \<and> (\<forall>q d. map_of t q = Some (File d) \<longrightarrow> q = [sha256 env d])"
proof -
  from assms obtain t0 t where r: "root = RootDir t0" "root' = RootDir t"
    and w: "walkEntries env (remdups (map fst t0)) t0 = (None, t)"
    by (auto simp: walkBlobs_def split: blob_root.splits prod.splits)
  have "\<forall>q d. map_of t0 q = Some (File d) \<longrightarrow> q \<in> set (remdups (map fst t0)) \<or> q = [sha256 env d]"
    by (auto dest: map_of_SomeD intro: rev_image_eqI)
  from walkEntries_inv [OF w this] r show ?thesis by simp
qed

lemma Pull_ok:
  assumes "Pull env cfg w = (Inr imgs, w')"
  shows "\<exists>st tp w2 root.
           createDirectory env (DestinationDirectory cfg) = None \<and>
           layoutWrite env (DestinationDirectory cfg) = None \<and>
           fetchImages env cfg (arrange (fetchOrder env) (ImageList cfg)) (initialFetchState w) = (None, st) \<and>
           savePhase env (CacheDirectory cfg) (fetched st)
             (addEvent (EvProgressBar (totalBytes st)) (w\<lparr>events := fEvents st\<rparr>)) = (None, (tp, w2)) \<and>
           walkBlobs env (blobs (theDisk w2)) = (None, root) \<and>
           imgs = fetched st \<and> w' = w2\<lparr>theDisk := (theDisk w2)\<lparr>blobs := root\<rparr>\<rparr>"
proof -
  from assms have c: "createDirectory env (DestinationDirectory cfg) = None"
    by (auto simp: Pull_def split: option.splits)
  from assms c have l: "layoutWrite env (DestinationDirectory cfg) = None"
    by (auto simp: Pull_def split: option.splits)
  obtain fe st where f: "fetchImages env cfg (arrange (fetchOrder env) (ImageList cfg)) (initialFetchState w) = (fe, st)"
    by (metis prod.exhaust)
  from assms c l f have fe: "fe = None"
    by (cases fe) (auto simp: Pull_def)
  obtain se tp w2 where s: "savePhase env (CacheDirectory cfg) (fetched st)
             (addEvent (EvProgressBar (totalBytes st)) (w\<lparr>events := fEvents st\<rparr>)) = (se, (tp, w2))"
    by (metis prod.exhaust)
  from assms c l f fe s have se: "se = None"
    by (cases se) (auto simp: Pull_def Let_def)
  obtain we root where wk: "walkBlobs env (blobs (theDisk w2)) = (we, root)"
    by (metis prod.exhaust)
  from assms c l f fe s se wk have "we = None \<and> imgs = fetched st \<and>
      w' = w2\<lparr>theDisk := (theDisk w2)\<lparr>blobs := root\<rparr>\<rparr>"
    by (cases we) (auto simp: Pull_def Let_def)
  with c l f fe s se wk show ?thesis by auto
qed

lemma repairBlob_renames:
  assumes "map_of t p = Some (File c)" and "hashErr env p = None"
    and "renameErr env p [sha256 env c] = None"
    and "map_of t [sha256 env c] \<noteq> Some Directory"
  shows "\<exists>t1. repairBlob env p t = Inr t1 \<and> map_of t1 [sha256 env c] = Some (File c) \<and>
           (p \<noteq> [sha256 env c] \<longrightarrow> map_of t1 p = None)"
  using assms
  by (auto simp: repairBlob_def osRename_def
      map_of_filter_key [where P = "\<lambda>k. k \<noteq> p \<and> k \<noteq> [sha256 env c]"])

text \<open>
  C4: when \<open>Pull\<close> returns without error, \<open>blobs/sha256\<close> is a directory and every file
  below it lies directly in it under the name that is the sha256 of its contents. The walk
  makes no distinction between blobs: its callback renames whatever file it is called on
  to the hash of that file's contents.
\<close>

theorem Pull_blob_names:
  "(Pull env cfg w = (Inr imgs, w') \<longrightarrow>
      (\<exists>t. blobs (theDisk w') = RootDir t \<and>
           (\<forall>p c. map_of t p = Some (File c) \<longrightarrow> p = [sha256 env c]))) \<and>
   (map_of t0 p0 = Some (File c0) \<and> hashErr env p0 = None \<and>
    renameErr env p0 [sha256 env c0] = None \<and> map_of t0 [sha256 env c0] \<noteq> Some Directory \<longrightarrow>
      (\<exists>t1. repairBlob env p0 t0 = Inr t1 \<and> map_of t1 [sha256 env c0] = Some (File c0) \<and>
            (p0 \<noteq> [sha256 env c0] \<longrightarrow> map_of t1 p0 = None)))"
proof (intro conjI impI)
  assume "Pull env cfg w = (Inr imgs, w')"
  from Pull_ok [OF this] obtain w2 root where
    "walkBlobs env (blobs (theDisk w2)) = (None, root)"
    "w' = w2\<lparr>theDisk := (theDisk w2)\<lparr>blobs := root\<rparr>\<rparr>" by blast
  with walkBlobs_names [of env "blobs (theDisk w2)" root]
  show "\<exists>t. blobs (theDisk w') = RootDir t \<and>
           (\<forall>p c. map_of t p = Some (File c) \<longrightarrow> p = [sha256 env c])"
    by simp
next
  assume "map_of t0 p0 = Some (File c0) \<and> hashErr env p0 = None \<and>
    renameErr env p0 [sha256 env c0] = None \<and> map_of t0 [sha256 env c0] \<noteq> Some Directory"
  then show "\<exists>t1. repairBlob env p0 t0 = Inr t1 \<and> map_of t1 [sha256 env c0] = Some (File c0) \<and>
            (p0 \<noteq> [sha256 env c0] \<longrightarrow> map_of t1 p0 = None)"
    using repairBlob_renames [of t0 p0 c0 env] by blast
qed

theorem Pull_blob_names_witness:
  "Pull env0 cfgA worldBlobs
     = (Inr [(refA, imgA)],
        \<lparr>events = pullTraceA, theDisk = \<lparr>files = (\<lambda>p. None), blobs = RootDir blobsAfter\<rparr>\<rparr>) \<and>
   map_of blobsAfter [''#x''] = Some (File ''x'') \<and>
   map_of blobsAfter [''#z''] = Some (File ''z'') \<and>
   map_of blobsAfter [''aaa''] = None \<and>
   map_of blobsAfter [''sub'', ''f''] = None \<and>
   map_of blobsBefore [''aaa''] = Some (File ''x'') \<and>
   (\<exists>t1. repairBlob env0 [''aaa''] blobsBefore = Inr t1 \<and>
         map_of t1 [sha256 env0 ''x''] = Some (File ''x'') \<and> map_of t1 [''aaa''] = None)"
proof -
  have run: "Pull env0 cfgA worldBlobs
     = (Inr [(refA, imgA)],
        \<lparr>events = pullTraceA, theDisk = \<lparr>files = (\<lambda>p. None), blobs = RootDir blobsAfter\<rparr>\<rparr>)"
    by (simp add: Pull_def initialFetchState_def fetchImage_def resolveImage_def isTarball_def
        suffix_def getCount_def logEv_def checkForIndex_def routeCache_def OnlyHasImageLayers_def
        getSizeOfImage_def savePhase_def retryTwice_def concurrentAttempt_def
        SaveConcurrent_def saveConcurrentWorker_def deleteSaved_def addEvent_def walkBlobs_def
        repairBlob_def osRename_def cfgA_def refA_def imgA_def imageOf_def layersA_def layerOf_def
        env0_def worldBlobs_def blobsBefore_def blobsAfter_def pullTraceA_def manifestDesc_def
        Let_def)
  have h: "map_of blobsBefore [''aaa''] = Some (File ''x'') \<and> hashErr env0 [''aaa''] = None \<and>
      renameErr env0 [''aaa''] [sha256 env0 ''x''] = None \<and>
      map_of blobsBefore [sha256 env0 ''x''] \<noteq> Some Directory"
    by (simp add: blobsBefore_def env0_def)
  have ne: "[''aaa''] \<noteq> [sha256 env0 ''x'']"
    by (simp add: env0_def)
  note t = Pull_blob_names [of env0 cfgA worldBlobs "[(refA, imgA)]"
      "\<lparr>events = pullTraceA, theDisk = \<lparr>files = (\<lambda>p. None), blobs = RootDir blobsAfter\<rparr>\<rparr>"
      blobsBefore "[''aaa'']" "''x''"]
  from t run have a: "\<forall>p c. map_of blobsAfter p = Some (File c) \<longrightarrow> p = [sha256 env0 c]"
    by simp
  from t h ne have b: "\<exists>t1. repairBlob env0 [''aaa''] blobsBefore = Inr t1 \<and>
         map_of t1 [sha256 env0 ''x''] = Some (File ''x'') \<and> map_of t1 [''aaa''] = None"
    by blast
  have c: "map_of blobsAfter [''#x''] = Some (File ''x'')" "map_of blobsAfter [''#z''] = Some (File ''z'')"
    "map_of blobsAfter [''aaa''] = None" "map_of blobsAfter [''sub'', ''f''] = None"
    by (simp_all add: blobsAfter_def)
  from run a b c h show ?thesis by simp
qed

section \<open>Properties of the size accounting\<close>

lemma addLayerSizes_sum:
  "map layerSize ls = map Inr szs \<Longrightarrow> addLayerSizes acc ls = Inr (acc + sum_list szs)"
proof (induction ls arbitrary: acc szs)
  case Nil
  then show ?case by simp
next
  case (Cons l ls)
  then obtain s ss where szs: "szs = s # ss" "layerSize l = Inr s" "map layerSize ls = map Inr ss"
    by (cases szs) auto
  with Cons.IH [OF szs(3), of "acc + s"] show ?case by (simp add: add.assoc)
qed

lemma addLayerSizes_ok:
  "addLayerSizes acc ls = Inr tot \<Longrightarrow> \<exists>szs. map layerSize ls = map Inr szs"
proof (induction ls arbitrary: acc)
  case Nil
  then show ?case by simp
next
  case (Cons l ls)
  then obtain s where s: "layerSize l = Inr s" "addLayerSizes (acc + s) ls = Inr tot"
    by (auto split: sum.splits)
  from Cons.IH [OF s(2)] obtain ss where "map layerSize ls = map Inr ss" by blast
  with s(1) have "map layerSize (l # ls) = map Inr (s # ss)" by simp
  then show ?case by blast
qed

lemma getSizeOfImage_iff:
  "getSizeOfImage img = Inr tot \<longleftrightarrow>
     (\<exists>ms m ls szs. imageSize img = Inr ms \<and> imageManifest img = Inr m \<and> imageLayers img = Inr ls \<and>
        map layerSize ls = map Inr szs \<and> tot = ms + configSize m + sum_list szs)"
proof
  assume a: "getSizeOfImage img = Inr tot"
  then obtain ms m ls where p: "imageSize img = Inr ms" "imageManifest img = Inr m"
    "imageLayers img = Inr ls" "addLayerSizes (0 + ms + configSize m) ls = Inr tot"
    by (auto simp: getSizeOfImage_def split: sum.splits)
  from addLayerSizes_ok [OF p(4)] obtain szs where s: "map layerSize ls = map Inr szs" by blast
  from addLayerSizes_sum [OF s, of "0 + ms + configSize m"] p(4)
  have "tot = ms + configSize m + sum_list szs" by simp
  with p s show "\<exists>ms m ls szs. imageSize img = Inr ms \<and> imageManifest img = Inr m \<and> imageLayers img = Inr ls \<and>
        map layerSize ls = map Inr szs \<and> tot = ms + configSize m + sum_list szs" by blast
next
  assume "\<exists>ms m ls szs. imageSize img = Inr ms \<and> imageManifest img = Inr m \<and> imageLayers img = Inr ls \<and>
        map layerSize ls = map Inr szs \<and> tot = ms + configSize m + sum_list szs"
  then show "getSizeOfImage img = Inr tot"
    by (auto simp: getSizeOfImage_def addLayerSizes_sum)
qed

lemma sint_sum_list:
  "\<forall>x\<in>set xs. 0 \<le> sint x \<Longrightarrow> (\<Sum>x\<leftarrow>xs. sint x) < 2 ^ 63 \<Longrightarrow>
   sint (sum_list xs :: int64) = (\<Sum>x\<leftarrow>xs. sint x)"
proof (induction xs)
  case Nil
  then show ?case by simp
next
  case (Cons x xs)
  have nn: "0 \<le> (\<Sum>x\<leftarrow>xs. sint x)" using Cons.prems(1) by (intro sum_list_nonneg) auto
  have x0: "0 \<le> sint x" using Cons.prems(1) by simp
  from Cons.prems nn x0 have "(\<Sum>x\<leftarrow>xs. sint x) < 2 ^ 63" by simp
  with Cons have ih: "sint (sum_list xs) = (\<Sum>x\<leftarrow>xs. sint x)" by simp
  have "sint (x + sum_list xs) = signed_take_bit 63 (sint x + sint (sum_list xs))"
    by (simp add: sint_word_ariths)
  also have "\<dots> = sint x + sint (sum_list xs)"
    using Cons.prems(2) nn x0 ih by (intro signed_take_bit_int_eq_self) auto
  finally show ?case using ih by simp
qed


lemma resolveImage_frame:
  "resolveImage env cfg r st = (res, st1) \<Longrightarrow>
     totalBytes st1 = totalBytes st \<and> fetched st1 = fetched st \<and> shas st1 = shas st"
  by (auto simp: resolveImage_def daemonFallback_def logEv_def Let_def
      split: if_splits sum.splits option.splits prod.splits)

lemma routeCache_frame:
  "routeCache env cfg r img st = (res, st1) \<Longrightarrow>
     totalBytes st1 = totalBytes st \<and> fetched st1 = fetched st \<and> shas st1 = shas st"
  by (auto simp: routeCache_def logEv_def split: if_splits sum.splits)

lemma fetchImage_ok:
  assumes "fetchImage env cfg r st = (None, st')"
  shows "\<exists>img sz. fetched st' = AList.update r img (fetched st) \<and>
           getSizeOfImage img = Inr sz \<and> totalBytes st' = totalBytes st + sz"
proof -
  obtain res st1 where a: "resolveImage env cfg r st = (res, st1)" by (metis prod.exhaust)
  with assms obtain img desc where res: "res = Inr (img, desc)"
    by (cases res) (auto simp: fetchImage_def)
  obtain rc st2 where b: "routeCache env cfg r img st1 = (rc, st2)" by (metis prod.exhaust)
  from assms a res b obtain img1 where rc: "rc = Inr img1"
    by (cases rc) (auto simp: fetchImage_def split: option.splits)
  from assms a res b rc obtain sz where sz: "getSizeOfImage img1 = Inr sz"
    by (cases "getSizeOfImage img1") (auto simp: fetchImage_def split: option.splits)
  from assms a res b rc sz
  have "fetched st' = AList.update r img1 (fetched st2) \<and> totalBytes st' = totalBytes st2 + sz"
    by (auto simp: fetchImage_def Let_def split: option.splits sum.splits prod.splits)
  with resolveImage_frame [OF a] routeCache_frame [OF b] sz show ?thesis by auto
qed

lemma fetchImage_fetched:
  assumes "fetchImage env cfg r st = (err, st')"
  shows "\<forall>k. k \<noteq> r \<longrightarrow> map_of (fetched st') k = map_of (fetched st) k"
proof -
  obtain res st1 where a: "resolveImage env cfg r st = (res, st1)" by (metis prod.exhaust)
  show ?thesis
  proof (cases res)
    case (Inl e)
    with assms a resolveImage_frame [OF a] show ?thesis by (auto simp: fetchImage_def)
  next
    case (Inr p)
    obtain img desc where p: "p = (img, desc)" by (cases p)
    obtain rc st2 where b: "routeCache env cfg r img st1 = (rc, st2)" by (metis prod.exhaust)
    from assms a Inr p b resolveImage_frame [OF a] routeCache_frame [OF b] show ?thesis
      by (auto simp: fetchImage_def Let_def update_conv'
          split: option.splits sum.splits prod.splits)
  qed
qed

lemma fetchImages_step:
  assumes "fetchImages env cfg (r # refs) st = (err, st')"
  obtains e1 st1 where "fetchImage env cfg r st = (e1, st1)" "e1 = Some PanicNilPointer"
      "err = e1" "st' = st1"
  | e1 st1 e2 where "fetchImage env cfg r st = (e1, st1)" "e1 \<noteq> Some PanicNilPointer"
      "fetchImages env cfg refs st1 = (e2, st')"
      "err = (if e2 = Some PanicNilPointer then e2 else (case e1 of Some e \<Rightarrow> Some e | None \<Rightarrow> e2))"
proof -
  obtain e1 st1 where a: "fetchImage env cfg r st = (e1, st1)" by (metis prod.exhaust)
  obtain e2 st2 where b: "fetchImages env cfg refs st1 = (e2, st2)" by (metis prod.exhaust)
  show ?thesis
  proof (cases "e1 = Some PanicNilPointer")
    case True
    from assms a True have r: "err = e1" "st' = st1" by simp_all
    show ?thesis by (rule that(1) [OF a True r])
  next
    case False
    from assms a b False have r: "st' = st2"
      "err = (if e2 = Some PanicNilPointer then e2 else (case e1 of Some e \<Rightarrow> Some e | None \<Rightarrow> e2))"
      by simp_all
    from b r(1) have b': "fetchImages env cfg refs st1 = (e2, st')" by simp
    show ?thesis by (rule that(2) [OF a False b' r(2)])
  qed
qed

lemma fetchImages_fetched:
  "fetchImages env cfg refs st = (err, st') \<Longrightarrow> k \<notin> set refs \<Longrightarrow>
     map_of (fetched st') k = map_of (fetched st) k"
proof (induction refs arbitrary: st err st')
  case Nil
  then show ?case by simp
next
  case (Cons r refs)
  from Cons.prems(1) show ?case
  proof (cases rule: fetchImages_step)
    case (1 e1 st1)
    with fetchImage_fetched [OF 1(1)] Cons.prems(2) show ?thesis by simp
  next
    case (2 e1 st1 e2)
    with Cons.IH [OF 2(3)] fetchImage_fetched [OF 2(1)] Cons.prems(2) show ?thesis by simp
  qed
qed

lemma fetchImages_total:
  "fetchImages env cfg refs st = (None, st') \<Longrightarrow> distinct refs \<Longrightarrow>
     totalBytes st' = totalBytes st + sum_list (map (fetchedSize (fetched st')) refs)"
proof (induction refs arbitrary: st)
  case Nil
  then show ?case by simp
next
  case (Cons r refs)
  from Cons.prems(1) show ?case
  proof (cases rule: fetchImages_step)
    case (1 e1 st1)
    then show ?thesis by simp
  next
    case (2 e1 st1 e2)
    then have e: "e1 = None" "e2 = None"
      by (auto split: if_splits option.splits)
    from fetchImage_ok [OF 2(1) [unfolded e]] obtain img sz where
      i: "fetched st1 = AList.update r img (fetched st)" "getSizeOfImage img = Inr sz"
      "totalBytes st1 = totalBytes st + sz" by blast
    from Cons.prems(2) have d: "distinct refs" "r \<notin> set refs" by auto
    from fetchImages_fetched [OF 2(3) d(2)] i(1) have "map_of (fetched st') r = Some img"
      by (simp add: update_conv')
    with i(2) have "fetchedSize (fetched st') r = sz" by (simp add: fetchedSize_def)
    with Cons.IH [OF 2(3) [unfolded e] d(1)] i(3) show ?thesis by (simp add: add.assoc)
  qed
qed

lemma fetchImage_distinct:
  assumes "fetchImage env cfg r st = (err, st')" and "distinct (map fst (fetched st))"
  shows "distinct (map fst (fetched st'))"
proof -
  obtain res st1 where a: "resolveImage env cfg r st = (res, st1)" by (metis prod.exhaust)
  show ?thesis
  proof (cases res)
    case (Inl e)
    with assms a resolveImage_frame [OF a] show ?thesis by (auto simp: fetchImage_def)
  next
    case (Inr p)
    obtain img desc where p: "p = (img, desc)" by (cases p)
    obtain rc st2 where b: "routeCache env cfg r img st1 = (rc, st2)" by (metis prod.exhaust)
    from assms a Inr p b resolveImage_frame [OF a] routeCache_frame [OF b] show ?thesis
      by (auto simp: fetchImage_def Let_def distinct_update
          split: option.splits sum.splits prod.splits)
  qed
qed

lemma fetchImages_distinct:
  "fetchImages env cfg refs st = (err, st') \<Longrightarrow> distinct (map fst (fetched st)) \<Longrightarrow>
     distinct (map fst (fetched st'))"
proof (induction refs arbitrary: st err st')
  case Nil
  then show ?case by simp
next
  case (Cons r refs)
  from Cons.prems(1) show ?case
  proof (cases rule: fetchImages_step)
    case (1 e1 st1)
    with fetchImage_distinct [OF 1(1) Cons.prems(2)] show ?thesis by simp
  next
    case (2 e1 st1 e2)
    from Cons.IH [OF 2(3) fetchImage_distinct [OF 2(1) Cons.prems(2)]] show ?thesis .
  qed
qed

lemma set_middle: "set (as @ x # bs) = insert x (set (as @ bs))"
  by auto

lemma distinct_middle: "distinct (as @ x # bs) \<longleftrightarrow> x \<notin> set (as @ bs) \<and> distinct (as @ bs)"
  by auto

lemma sum_list_middle:
  "sum_list (map f (as @ x # bs)) = (f x :: int64) + sum_list (map f (as @ bs))"
  by (induction as) (simp_all add: add.left_commute)

lemma set_insertAt: "set (insertAt i x xs) = insert x (set xs)"
  unfolding insertAt_def set_middle by (simp only: append_take_drop_id)

lemma distinct_insertAt: "distinct (insertAt i x xs) \<longleftrightarrow> x \<notin> set xs \<and> distinct xs"
  unfolding insertAt_def distinct_middle by (simp only: append_take_drop_id)

lemma sum_list_insertAt:
  "sum_list (map f (insertAt i x xs)) = (f x :: int64) + sum_list (map f xs)"
  unfolding insertAt_def sum_list_middle by (simp only: append_take_drop_id)

lemma set_arrange: "set (arrange ks xs) = set xs"
  by (induction ks xs rule: arrange.induct) (simp_all add: set_insertAt)

lemma distinct_arrange: "distinct (arrange ks xs) = distinct xs"
  by (induction ks xs rule: arrange.induct) (simp_all add: distinct_insertAt set_arrange)

lemma sum_list_arrange:
  "sum_list (map f (arrange ks xs)) = (sum_list (map f xs) :: int64)"
  by (induction ks xs rule: arrange.induct) (simp_all add: sum_list_insertAt)

lemma length_arrange: "length (arrange ks xs) = length xs"
  by (induction ks xs rule: arrange.induct) (simp_all add: insertAt_def)

text \<open>Every order of the goroutines is the one built from some choice of numbers.\<close>

lemma arrange_any_order:
  "(\<forall>z. count_list ys z = count_list xs z) \<Longrightarrow> \<exists>ks. arrange ks xs = ys"
proof (induction xs arbitrary: ys)
  case Nil
  then have "\<forall>z. z \<notin> set ys" by (simp add: count_list_0_iff)
  then have "ys = []" by (cases ys) auto
  then show ?case by simp
next
  case (Cons x xs)
  from Cons.prems have "count_list ys x = Suc (count_list xs x)" by simp
  then have "x \<in> set ys" by (metis count_list_0_iff nat.distinct(1))
  then obtain as bs where ys: "ys = as @ x # bs" by (auto dest: split_list)
  with Cons.prems have "\<forall>z. count_list (as @ bs) z = count_list xs z"
    by (auto split: if_splits)
  from Cons.IH [OF this] obtain ks where ks: "arrange ks xs = as @ bs" by blast
  from length_arrange [of ks xs] ks have "length as < Suc (length xs)" by simp
  with ks ys have "arrange (length as # ks) (x # xs) = ys"
    by (simp add: insertAt_def)
  then show ?case by blast
qed

lemma Pull_progress:
  assumes "Pull env cfg w = (Inr imgs, w')" and "distinct (ImageList cfg)"
  shows "EvProgressBar (sum_list (map (fetchedSize imgs) (ImageList cfg))) \<in> set (events w')"
proof -
  from Pull_ok [OF assms(1)] obtain st tp w2 root where
    f: "fetchImages env cfg (arrange (fetchOrder env) (ImageList cfg)) (initialFetchState w) = (None, st)"
    and s: "savePhase env (CacheDirectory cfg) (fetched st)
             (addEvent (EvProgressBar (totalBytes st)) (w\<lparr>events := fEvents st\<rparr>)) = (None, (tp, w2))"
    and i: "imgs = fetched st" and w': "w' = w2\<lparr>theDisk := (theDisk w2)\<lparr>blobs := root\<rparr>\<rparr>"
    by blast
  from fetchImages_total [OF f] assms(2)
  have t: "totalBytes st = sum_list (map (fetchedSize imgs) (ImageList cfg))"
    by (simp add: initialFetchState_def i distinct_arrange sum_list_arrange)
  have "distinct (map fst (fetched st))"
    using fetchImages_distinct [OF f] by (simp add: initialFetchState_def)
  from savePhase_spec [OF s this] obtain new where
    "events w2 = events (addEvent (EvProgressBar (totalBytes st)) (w\<lparr>events := fEvents st\<rparr>)) @ new"
    by blast
  with t w' show ?thesis by simp
qed

text \<open>
  C8: \<open>getSizeOfImage\<close> returns a size exactly when the manifest size, the manifest and
  every layer size can be read, and the size is then the manifest size plus the config
  size plus the sum of the layer sizes, added as \<open>int64\<close>; when the sizes are not negative
  and their sum is below \<open>2^63\<close> this is the sum of the integers. Each goroutine of the
  info-fetch adds the size of the image it stores to \<open>totalBytes\<close>, and the progress bar
  of a pull that succeeds is started with the sum over the image list.
\<close>

theorem getSizeOfImage_sums_sizes:
  "(getSizeOfImage img = Inr tot \<longleftrightarrow>
      (\<exists>ms m ls szs. imageSize img = Inr ms \<and> imageManifest img = Inr m \<and>
         imageLayers img = Inr ls \<and> map layerSize ls = map Inr szs \<and>
         tot = ms + configSize m + sum_list szs)) \<and>
   (imageSize img = Inr ms \<and> imageManifest img = Inr m \<and> imageLayers img = Inr ls \<and>
    map layerSize ls = map Inr szs \<and> 0 \<le> sint ms \<and> 0 \<le> sint (configSize m) \<and>
    (\<forall>s\<in>set szs. 0 \<le> sint s) \<and>
    sint ms + sint (configSize m) + (\<Sum>s\<leftarrow>szs. sint s) < 2 ^ 63 \<longrightarrow>
      (\<exists>t. getSizeOfImage img = Inr t \<and>
           sint t = sint ms + sint (configSize m) + (\<Sum>s\<leftarrow>szs. sint s))) \<and>
   (fetchImage env cfg refInfo st = (None, st') \<longrightarrow>
      (\<exists>stored sz. map_of (fetched st') refInfo = Some stored \<and> getSizeOfImage stored = Inr sz \<and>
         totalBytes st' = totalBytes st + sz)) \<and>
   (Pull env cfg w = (Inr imgs, w') \<and> distinct (ImageList cfg) \<longrightarrow>
      EvProgressBar (sum_list (map (fetchedSize imgs) (ImageList cfg))) \<in> set (events w'))"
proof (intro conjI impI)
  show "getSizeOfImage img = Inr tot \<longleftrightarrow>
      (\<exists>ms m ls szs. imageSize img = Inr ms \<and> imageManifest img = Inr m \<and>
         imageLayers img = Inr ls \<and> map layerSize ls = map Inr szs \<and>
         tot = ms + configSize m + sum_list szs)"
    by (rule getSizeOfImage_iff)
next
  assume a: "imageSize img = Inr ms \<and> imageManifest img = Inr m \<and> imageLayers img = Inr ls \<and>
    map layerSize ls = map Inr szs \<and> 0 \<le> sint ms \<and> 0 \<le> sint (configSize m) \<and>
    (\<forall>s\<in>set szs. 0 \<le> sint s) \<and>
    sint ms + sint (configSize m) + (\<Sum>s\<leftarrow>szs. sint s) < 2 ^ 63"
  then have g: "getSizeOfImage img = Inr (ms + configSize m + sum_list szs)"
    using getSizeOfImage_iff [of img "ms + configSize m + sum_list szs"] by blast
  have "sint (sum_list (ms # configSize m # szs)) = (\<Sum>s\<leftarrow>ms # configSize m # szs. sint s)"
    using a by (intro sint_sum_list) auto
  then have "sint (ms + configSize m + sum_list szs)
      = sint ms + sint (configSize m) + (\<Sum>s\<leftarrow>szs. sint s)"
    by (simp add: add.assoc)
  with g show "\<exists>t. getSizeOfImage img = Inr t \<and>
           sint t = sint ms + sint (configSize m) + (\<Sum>s\<leftarrow>szs. sint s)"
    by blast
next
  assume "fetchImage env cfg refInfo st = (None, st')"
  from fetchImage_ok [OF this]
  show "\<exists>stored sz. map_of (fetched st') refInfo = Some stored \<and> getSizeOfImage stored = Inr sz \<and>
         totalBytes st' = totalBytes st + sz"
    by (auto simp: update_conv')
next
  assume "Pull env cfg w = (Inr imgs, w') \<and> distinct (ImageList cfg)"
  then show "EvProgressBar (sum_list (map (fetchedSize imgs) (ImageList cfg))) \<in> set (events w')"
    using Pull_progress by blast
qed

theorem getSizeOfImage_sums_sizes_witness:
  "getSizeOfImage imgA = Inr 560 \<and>
   imageSize imgA = Inr 400 \<and> imageManifest imgA = Inr \<lparr>configSize = 100\<rparr> \<and>
   imageLayers imgA = Inr layersA \<and> map layerSize layersA = map Inr [10, 20, 30] \<and>
   (560 :: int64) = 400 + 100 + sum_list [10, 20, 30] \<and>
   sint (560 :: int64) = 560 \<and>
   fetchImage env0 cfgA refA (initialFetchState worldBlobs)
     = (None, \<lparr>fEvents = [EvGet ''reg.io/a:1'', EvRemotePull ''reg.io/a:1'',
                           EvCacheImage ''reg.io/a:1'' ''/c''],
               dockerEndPointHost = [], totalBytes = 560, shas = [''aa'', ''bb'', ''cc''],
               fetched = [(refA, imgA)]\<rparr>) \<and>
   fst (Pull env0 cfgA worldBlobs) = Inr [(refA, imgA)] \<and> distinct (ImageList cfgA) \<and>
   fetchedSize [(refA, imgA)] refA = 560 \<and>
   EvProgressBar 560 \<in> set (events (snd (Pull env0 cfgA worldBlobs)))"
proof -
  let ?st' = "\<lparr>fEvents = [EvGet ''reg.io/a:1'', EvRemotePull ''reg.io/a:1'',
                           EvCacheImage ''reg.io/a:1'' ''/c''],
               dockerEndPointHost = [], totalBytes = 560, shas = [''aa'', ''bb'', ''cc''],
               fetched = [(refA, imgA)]\<rparr>"
  have parts: "imageSize imgA = Inr 400 \<and> imageManifest imgA = Inr \<lparr>configSize = 100\<rparr> \<and>
      imageLayers imgA = Inr layersA \<and> map layerSize layersA = map Inr [10, 20, 30]"
    by (simp add: imgA_def imageOf_def layersA_def layerOf_def)
  have small: "0 \<le> sint (400 :: int64) \<and> 0 \<le> sint (configSize \<lparr>configSize = 100\<rparr>) \<and>
      (\<forall>s\<in>set [10, 20, 30 :: int64]. 0 \<le> sint s) \<and>
      sint (400 :: int64) + sint (configSize \<lparr>configSize = 100\<rparr>) + (\<Sum>s\<leftarrow>[10, 20, 30 :: int64]. sint s)
        < 2 ^ 63"
    by simp
  have worker: "fetchImage env0 cfgA refA (initialFetchState worldBlobs) = (None, ?st')"
    by (simp add: initialFetchState_def fetchImage_def resolveImage_def isTarball_def
        suffix_def getCount_def logEv_def checkForIndex_def routeCache_def OnlyHasImageLayers_def
        getSizeOfImage_def cfgA_def refA_def imgA_def imageOf_def layersA_def layerOf_def
        env0_def worldBlobs_def manifestDesc_def Let_def)
  have run: "Pull env0 cfgA worldBlobs
     = (Inr [(refA, imgA)], snd (Pull env0 cfgA worldBlobs))"
    by (simp add: Pull_def initialFetchState_def fetchImage_def resolveImage_def isTarball_def
        suffix_def getCount_def logEv_def checkForIndex_def routeCache_def OnlyHasImageLayers_def
        getSizeOfImage_def savePhase_def retryTwice_def concurrentAttempt_def
        SaveConcurrent_def saveConcurrentWorker_def deleteSaved_def addEvent_def walkBlobs_def
        repairBlob_def osRename_def cfgA_def refA_def imgA_def imageOf_def layersA_def layerOf_def
        env0_def worldBlobs_def blobsBefore_def manifestDesc_def Let_def)
  have d: "distinct (ImageList cfgA)" by (simp add: cfgA_def)
  note t = getSizeOfImage_sums_sizes [of imgA 560 400 "\<lparr>configSize = 100\<rparr>" layersA "[10, 20, 30]"
      env0 cfgA refA "initialFetchState worldBlobs" ?st' worldBlobs "[(refA, imgA)]"
      "snd (Pull env0 cfgA worldBlobs)"]
  have ex: "\<exists>ms m ls szs. imageSize imgA = Inr ms \<and> imageManifest imgA = Inr m \<and>
         imageLayers imgA = Inr ls \<and> map layerSize ls = map Inr szs \<and>
         (560 :: int64) = ms + configSize m + sum_list szs"
    using parts
    by (intro exI [of _ 400] exI [of _ "\<lparr>configSize = 100\<rparr>"] exI [of _ layersA]
        exI [of _ "[10, 20, 30]"]) simp
  from t [THEN conjunct1] ex have g: "getSizeOfImage imgA = Inr 560" by blast
  from t [THEN conjunct2, THEN conjunct1] parts small
  have s: "\<exists>t. getSizeOfImage imgA = Inr t \<and>
      sint t = sint (400 :: int64) + sint (configSize \<lparr>configSize = 100\<rparr>)
                 + (\<Sum>s\<leftarrow>[10, 20, 30 :: int64]. sint s)"
    by blast
  from t [THEN conjunct2, THEN conjunct2, THEN conjunct1] worker
  have w: "\<exists>stored sz. map_of (fetched ?st') refA = Some stored \<and> getSizeOfImage stored = Inr sz \<and>
      totalBytes ?st' = totalBytes (initialFetchState worldBlobs) + sz"
    by blast
  from t [THEN conjunct2, THEN conjunct2, THEN conjunct2] run d
  have p: "EvProgressBar (sum_list (map (fetchedSize [(refA, imgA)]) (ImageList cfgA)))
      \<in> set (events (snd (Pull env0 cfgA worldBlobs)))" by blast
  have fs: "fetchedSize [(refA, imgA)] refA = 560"
    using g by (simp add: fetchedSize_def)
  from p fs have p': "EvProgressBar 560 \<in> set (events (snd (Pull env0 cfgA worldBlobs)))"
    by (simp add: cfgA_def)
  from run have r: "fst (Pull env0 cfgA worldBlobs) = Inr [(refA, imgA)]"
    by (metis fst_conv)
  from g parts worker r d fs p' show ?thesis by simp
qed

section \<open>Properties of the cache policy\<close>

lemma allImageLayers_result:
  "allImageLayers env ls = Inr b \<Longrightarrow> b = list_all (isImageLayer env) ls"
  by (induction ls) (auto simp: isImageLayer_def split: sum.splits if_splits)

lemma OnlyHasImageLayers_result:
  "OnlyHasImageLayers env img = Inr b \<Longrightarrow>
     \<exists>layers. imageLayers img = Inr layers \<and> b = list_all (isImageLayer env) layers"
  by (auto simp: OnlyHasImageLayers_def allImageLayers_result split: sum.splits)

lemma routeCache_result:
  assumes "routeCache env cfg refInfo img st = (Inr img', st')"
  shows "\<exists>layers. imageLayers img = Inr layers \<and>
           img' = (if cacheable env cfg layers then cacheImage env (CacheDirectory cfg) img else img) \<and>
           fEvents st' = fEvents st @
             (if cacheable env cfg layers
              then [EvCacheImage (Reference refInfo) (CacheDirectory cfg)] else []) \<and>
           (\<not> cacheable env cfg layers \<longrightarrow> st' = st)"
proof -
  from assms obtain b where b: "OnlyHasImageLayers env img = Inr b"
    by (cases "OnlyHasImageLayers env img") (auto simp: routeCache_def)
  from OnlyHasImageLayers_result [OF b] obtain layers where
    l: "imageLayers img = Inr layers" "b = list_all (isImageLayer env) layers" by blast
  from assms b l show ?thesis
    by (auto simp: routeCache_def cacheable_def logEv_def split: if_splits)
qed

lemma fetchImage_route:
  assumes "fetchImage env cfg refInfo st = (None, st')"
  shows "\<exists>img0 desc st1 layers.
           resolveImage env cfg refInfo st = (Inr (img0, desc), st1) \<and>
           imageLayers img0 = Inr layers \<and>
           map_of (fetched st') refInfo =
             Some (if cacheable env cfg layers then cacheImage env (CacheDirectory cfg) img0 else img0) \<and>
           fEvents st' = fEvents st1 @
             (if cacheable env cfg layers
              then [EvCacheImage (Reference refInfo) (CacheDirectory cfg)] else [])"
proof -
  obtain res st1 where a: "resolveImage env cfg refInfo st = (res, st1)" by (metis prod.exhaust)
  with assms obtain img desc where res: "res = Inr (img, desc)"
    by (cases res) (auto simp: fetchImage_def)
  obtain rc st2 where b: "routeCache env cfg refInfo img st1 = (rc, st2)" by (metis prod.exhaust)
  from assms a res b obtain img1 where rc: "rc = Inr img1"
    by (cases rc) (auto simp: fetchImage_def split: option.splits)
  from routeCache_result [OF b [unfolded rc]] obtain layers where
    l: "imageLayers img = Inr layers"
    "img1 = (if cacheable env cfg layers then cacheImage env (CacheDirectory cfg) img else img)"
    "fEvents st2 = fEvents st1 @
             (if cacheable env cfg layers
              then [EvCacheImage (Reference refInfo) (CacheDirectory cfg)] else [])" by blast
  from assms a res b rc
  have "fetched st' = AList.update refInfo img1 (fetched st2) \<and> fEvents st' = fEvents st2"
    by (auto simp: fetchImage_def Let_def split: option.splits sum.splits prod.splits)
  with l a res show ?thesis by (simp add: update_conv')
qed

text \<open>
  C7: an image is wrapped by the filesystem layer cache if and only if a cache directory
  is configured and every layer of the image has an image-layer media type, which is what
  \<open>OnlyHasImageLayers\<close> answers; otherwise the image is stored as it was resolved and no
  call to the cache is made for it.
\<close>

theorem cache_routing:
  "(OnlyHasImageLayers env img = Inr b \<longrightarrow>
      (\<exists>layers. imageLayers img = Inr layers \<and> b = list_all (isImageLayer env) layers)) \<and>
   (routeCache env cfg refInfo img st = (Inr img', st') \<longrightarrow>
      (\<exists>layers. imageLayers img = Inr layers \<and>
         img' = (if cacheable env cfg layers then cacheImage env (CacheDirectory cfg) img else img) \<and>
         fEvents st' = fEvents st @
           (if cacheable env cfg layers
            then [EvCacheImage (Reference refInfo) (CacheDirectory cfg)] else []) \<and>
         (\<not> cacheable env cfg layers \<longrightarrow> st' = st))) \<and>
   (fetchImage env cfg refInfo st = (None, st'') \<longrightarrow>
      (\<exists>img0 desc st1 layers.
         resolveImage env cfg refInfo st = (Inr (img0, desc), st1) \<and>
         imageLayers img0 = Inr layers \<and>
         map_of (fetched st'') refInfo =
           Some (if cacheable env cfg layers then cacheImage env (CacheDirectory cfg) img0 else img0) \<and>
         fEvents st'' = fEvents st1 @
           (if cacheable env cfg layers
            then [EvCacheImage (Reference refInfo) (CacheDirectory cfg)] else [])))"
  using OnlyHasImageLayers_result [of env img b]
    routeCache_result [of env cfg refInfo img st img' st']
    fetchImage_route [of env cfg refInfo st st'']
  by blast

theorem cache_routing_witness:
  "OnlyHasImageLayers env0 imgA = Inr True \<and> list_all (isImageLayer env0) layersA \<and>
   OnlyHasImageLayers env0 imgHelm = Inr False \<and>
   routeCache env0 cfgA refA imgA fetchState0
     = (Inr imgA, fetchState0\<lparr>fEvents := [EvCacheImage ''reg.io/a:1'' ''/c'']\<rparr>) \<and>
   cacheable env0 cfgA layersA \<and>
   routeCache env0 cfgA refA imgHelm fetchState0 = (Inr imgHelm, fetchState0) \<and>
   routeCache env0 cfgNoCache refA imgA fetchState0 = (Inr imgA, fetchState0) \<and>
   \<not> cacheable env0 cfgNoCache layersA \<and>
   fst (fetchImage env0 cfgA refA fetchState0) = None \<and>
   map_of (fetched (snd (fetchImage env0 cfgA refA fetchState0))) refA
     = Some (cacheImage env0 ''/c'' imgA) \<and>
   EvCacheImage ''reg.io/a:1'' ''/c'' \<in> set (fEvents (snd (fetchImage env0 cfgA refA fetchState0)))"
proof -
  have o: "OnlyHasImageLayers env0 imgA = Inr True" "OnlyHasImageLayers env0 imgHelm = Inr False"
    by (simp_all add: OnlyHasImageLayers_def imgA_def imgHelm_def imageOf_def layersA_def
        layerOf_def env0_def)
  have la: "imageLayers imgA = Inr layersA" by (simp add: imgA_def imageOf_def)
  have r1: "routeCache env0 cfgA refA imgA fetchState0
     = (Inr imgA, fetchState0\<lparr>fEvents := [EvCacheImage ''reg.io/a:1'' ''/c'']\<rparr>)"
    unfolding routeCache_def o
    by (simp add: logEv_def cfgA_def refA_def fetchState0_def env0_def)
  have r2: "routeCache env0 cfgA refA imgHelm fetchState0 = (Inr imgHelm, fetchState0)"
    by (simp add: routeCache_def o)
  have r3: "routeCache env0 cfgNoCache refA imgA fetchState0 = (Inr imgA, fetchState0)"
    by (simp add: routeCache_def o cfgNoCache_def)
  have w: "fetchImage env0 cfgA refA fetchState0
     = (None, snd (fetchImage env0 cfgA refA fetchState0))"
    and rs: "resolveImage env0 cfgA refA fetchState0
     = (Inr (imgA, Some manifestDesc),
        fetchState0\<lparr>fEvents := [EvGet ''reg.io/a:1'', EvRemotePull ''reg.io/a:1'']\<rparr>)"
    by (simp_all add: fetchState0_def fetchImage_def resolveImage_def isTarball_def
        suffix_def getCount_def logEv_def checkForIndex_def routeCache_def OnlyHasImageLayers_def
        getSizeOfImage_def cfgA_def refA_def imgA_def imageOf_def layersA_def layerOf_def
        env0_def manifestDesc_def Let_def)
  note t = cache_routing [of env0 imgA True cfgA refA fetchState0 imgA
      "fetchState0\<lparr>fEvents := [EvCacheImage ''reg.io/a:1'' ''/c'']\<rparr>"
      "snd (fetchImage env0 cfgA refA fetchState0)"]
  from t [THEN conjunct1] o(1) la have a: "list_all (isImageLayer env0) layersA" by auto
  then have c: "cacheable env0 cfgA layersA" "\<not> cacheable env0 cfgNoCache layersA"
    by (simp_all add: cacheable_def cfgA_def cfgNoCache_def)
  from t [THEN conjunct2, THEN conjunct2] w rs la c(1)
  have f: "map_of (fetched (snd (fetchImage env0 cfgA refA fetchState0))) refA
       = Some (cacheImage env0 ''/c'' imgA)"
    "EvCacheImage ''reg.io/a:1'' ''/c'' \<in> set (fEvents (snd (fetchImage env0 cfgA refA fetchState0)))"
    by (auto simp: cfgA_def refA_def)
  from w have n: "fst (fetchImage env0 cfgA refA fetchState0) = None" by (metis fst_conv)
  from o a r1 r2 r3 c n f show ?thesis by simp
qed

section \<open>Properties of the index rejection\<close>






lemma indexLines_nil_platform: "\<not> list_all hasPlatform ms \<Longrightarrow> indexLines name ms = None"
  by (induction ms) (auto simp: hasPlatform_def split: option.splits)

lemma checkForIndex_nil_platform:
  "Digest refInfo \<noteq> [] \<Longrightarrow> IsIndex env (MediaType d) \<Longrightarrow>
   unmarshalIndex env (Manifest d) = Inr ms \<Longrightarrow> \<not> list_all hasPlatform ms \<Longrightarrow>
   checkForIndex env refInfo (Some d) = Some PanicNilPointer"
  by (simp add: checkForIndex_def indexLines_nil_platform)














lemma Pull_fetch_fails:
  assumes "fst (fetchImages env cfg (arrange (fetchOrder env) (ImageList cfg)) (initialFetchState w)) \<noteq> None"
  shows "\<exists>e. fst (Pull env cfg w) = Inl e"
proof -
  obtain fe st where f: "fetchImages env cfg (arrange (fetchOrder env) (ImageList cfg)) (initialFetchState w) = (fe, st)"
    by (metis prod.exhaust)
  with assms obtain e where "fe = Some e" by auto
  with f show ?thesis
    by (auto simp: Pull_def split: option.splits)
qed





section \<open>Properties of the resolution of a reference\<close>

lemma resolveImage_rate_limited:
  assumes "\<not> isTarball (overriddenRef cfg refInfo)"
    and "parseReference env (overriddenRef cfg refInfo) = Inr reference"
    and "craneGet env (overriddenRef cfg refInfo) (getCount (fEvents st) (overriddenRef cfg refInfo)) = Inl e"
    and "tooManyRequests e"
  shows "resolveImage env cfg refInfo st
           = (Inl (ErrRateLimited e), logEv (EvGet (overriddenRef cfg refInfo)) st)"
  using assms by (simp add: resolveImage_def overriddenRef_def Let_def)











lemma errSeen_own: "errWrittenBy env ref = None \<Longrightarrow> errSeen env cfg ref = loadErr env ref"
  by (simp add: errSeen_def)

lemma errSeen_single: "set (tarballRefs cfg) \<subseteq> {ref} \<Longrightarrow> errSeen env cfg ref = loadErr env ref"
  by (auto simp: errSeen_def split: option.splits)

lemma resolveImage_load:
  assumes "isTarball (overriddenRef cfg refInfo)"
    and "errSeen env cfg (overriddenRef cfg refInfo) = loadErr env (overriddenRef cfg refInfo)"
  shows "resolveImage env cfg refInfo st
        = ((case craneLoad env (overriddenRef cfg refInfo) of
              Inl e \<Rightarrow> Inl (ErrLoad (Reference refInfo) e)
            | Inr img \<Rightarrow> Inr (img, None)),
           logEv (EvLoad (overriddenRef cfg refInfo)) st)"
  using assms
  by (simp add: resolveImage_def overriddenRef_def loadErr_def Let_def split: sum.splits)

text \<open>
  The run that the shared variable allows: \<open>crane.Load\<close> fails for the second tarball, its
  goroutine reads the nil written for the first and goes on to the panic.
\<close>

lemma resolveImage_nil_image:
  "resolveImage envRace cfgTwoTars refTarBad fetchState0
     = (Inl PanicNilPointer, fetchState0\<lparr>fEvents := [EvLoad ''/images/bad.tar'']\<rparr>)"
  by (simp add: resolveImage_def errSeen_def loadErr_def tarballRefs_def isTarball_def suffix_def
      logEv_def cfgTwoTars_def refTar_def refTarBad_def envRace_def env0_def fetchState0_def Let_def)

lemma replaceFirst_prefix: "prefix k r \<Longrightarrow> replaceFirst k v r = v @ drop (length k) r"
  by (cases r) auto

lemma applyOverrides_none:
  "list_all (\<lambda>kv. \<not> prefix (fst kv) r) ovs \<Longrightarrow> applyOverrides ovs r r0 = r0"
  by (induction ovs arbitrary: r0) auto

lemma applyOverrides_last:
  "prefix k r \<Longrightarrow> list_all (\<lambda>kv. \<not> prefix (fst kv) r) post \<Longrightarrow>
   applyOverrides (pre @ (k, v) # post) r r0 = v @ drop (length k) r"
  by (induction pre arbitrary: r0) (auto simp: applyOverrides_none replaceFirst_prefix)

lemma daemonFallback_ok:
  "daemonFallback env ref reference st = (Inr (img, desc), st') \<Longrightarrow>
     desc = None \<and> daemonImage env reference Unbuffered = Inr img \<and>
     (\<exists>evs. fEvents st' = fEvents st @ evs @ [EvInspect ref, EvDaemonImage reference Unbuffered])"
  by (auto simp: daemonFallback_def logEv_def
      split: if_splits sum.splits option.splits prod.splits)




text \<open>
  C6 (as amended): the reference is first rewritten by the registry overrides: a key that
  is a prefix of the reference is replaced once, by its value, and the last such key of the
  iteration decides. If the rewritten reference ends in \<open>.tar\<close>, \<open>.tar.gz\<close> or \<open>.tgz\<close> and
  the goroutine reads back the \<open>err\<close> it has written, as it does when the list holds no
  other tarball, the image is loaded from the tarball and that is the only call. Otherwise
  the rewritten reference is parsed; when it does not parse, "failed to parse reference" is
  returned and nothing is called. When it parses, \<open>crane.Get\<close> fetches the descriptor and
  \<open>crane.Pull\<close> the image, an error of \<open>crane.Pull\<close> being returned. When \<open>crane.Get\<close>
  fails with an error whose text does not contain "unexpected status code 429 Too Many
  Requests", the image is loaded from the local daemon, with the unbuffered opener; when
  the text of the error contains it, "rate limited by registry" is returned and the daemon
  is not tried.
\<close>

theorem resolution_order:
  "(prefix k r \<and> list_all (\<lambda>kv. \<not> prefix (fst kv) r) post \<longrightarrow>
      applyOverrides (pre @ (k, v) # post) r r = v @ drop (length k) r) \<and>
   (list_all (\<lambda>kv. \<not> prefix (fst kv) r) ovs \<longrightarrow> applyOverrides ovs r r = r) \<and>
   (isTarball (overriddenRef cfg refInfo) \<and>
    (set (tarballRefs cfg) \<subseteq> {overriddenRef cfg refInfo} \<or>
     errSeen env cfg (overriddenRef cfg refInfo) = loadErr env (overriddenRef cfg refInfo)) \<longrightarrow>
      resolveImage env cfg refInfo st
        = ((case craneLoad env (overriddenRef cfg refInfo) of
              Inl e \<Rightarrow> Inl (ErrLoad (Reference refInfo) e)
            | Inr img \<Rightarrow> Inr (img, None)),
           logEv (EvLoad (overriddenRef cfg refInfo)) st)) \<and>
   (\<not> isTarball (overriddenRef cfg refInfo) \<and>
    parseReference env (overriddenRef cfg refInfo) = Inr reference \<and>
    craneGet env (overriddenRef cfg refInfo) (getCount (fEvents st) (overriddenRef cfg refInfo)) = Inr d \<longrightarrow>
      resolveImage env cfg refInfo st
        = ((case cranePull env (overriddenRef cfg refInfo) of
              Inl e \<Rightarrow> Inl (ErrPullImage (Reference refInfo) e)
            | Inr img \<Rightarrow> Inr (img, Some d)),
           logEv (EvRemotePull (overriddenRef cfg refInfo))
             (logEv (EvGet (overriddenRef cfg refInfo)) st))) \<and>
   (\<not> isTarball (overriddenRef cfg refInfo) \<and>
    parseReference env (overriddenRef cfg refInfo) = Inr reference \<and>
    craneGet env (overriddenRef cfg refInfo) (getCount (fEvents st) (overriddenRef cfg refInfo)) = Inl e \<and>
    \<not> tooManyRequests e \<longrightarrow>
      resolveImage env cfg refInfo st
        = daemonFallback env (overriddenRef cfg refInfo) reference
            (logEv (EvGet (overriddenRef cfg refInfo)) st)) \<and>
   (daemonFallback env ref reference st = (Inr (img, desc), st') \<longrightarrow>
      desc = None \<and> daemonImage env reference Unbuffered = Inr img \<and>
      (\<exists>evs. fEvents st' = fEvents st @ evs @ [EvInspect ref, EvDaemonImage reference Unbuffered])) \<and>
   (\<not> isTarball (overriddenRef cfg refInfo) \<and>
    parseReference env (overriddenRef cfg refInfo) = Inr reference \<and>
    craneGet env (overriddenRef cfg refInfo) (getCount (fEvents st) (overriddenRef cfg refInfo)) = Inl e \<and>
    tooManyRequests e \<longrightarrow>
      resolveImage env cfg refInfo st
        = (Inl (ErrRateLimited e), logEv (EvGet (overriddenRef cfg refInfo)) st)) \<and>
   (\<not> isTarball (overriddenRef cfg refInfo) \<and>
    parseReference env (overriddenRef cfg refInfo) = Inl pe \<longrightarrow>
      resolveImage env cfg refInfo st = (Inl (ErrParseReference pe), st))"
proof (intro conjI impI)
  assume "prefix k r \<and> list_all (\<lambda>kv. \<not> prefix (fst kv) r) post"
  then show "applyOverrides (pre @ (k, v) # post) r r = v @ drop (length k) r"
    by (simp add: applyOverrides_last)
next
  assume "list_all (\<lambda>kv. \<not> prefix (fst kv) r) ovs"
  then show "applyOverrides ovs r r = r" by (rule applyOverrides_none)
next
  assume a: "isTarball (overriddenRef cfg refInfo) \<and>
    (set (tarballRefs cfg) \<subseteq> {overriddenRef cfg refInfo} \<or>
     errSeen env cfg (overriddenRef cfg refInfo) = loadErr env (overriddenRef cfg refInfo))"
  then have "errSeen env cfg (overriddenRef cfg refInfo) = loadErr env (overriddenRef cfg refInfo)"
    using errSeen_single by blast
  with a show "resolveImage env cfg refInfo st
        = ((case craneLoad env (overriddenRef cfg refInfo) of
              Inl e \<Rightarrow> Inl (ErrLoad (Reference refInfo) e)
            | Inr img \<Rightarrow> Inr (img, None)),
           logEv (EvLoad (overriddenRef cfg refInfo)) st)"
    by (simp add: resolveImage_load)
next
  assume "\<not> isTarball (overriddenRef cfg refInfo) \<and>
    parseReference env (overriddenRef cfg refInfo) = Inr reference \<and>
    craneGet env (overriddenRef cfg refInfo) (getCount (fEvents st) (overriddenRef cfg refInfo)) = Inr d"
  then show "resolveImage env cfg refInfo st
        = ((case cranePull env (overriddenRef cfg refInfo) of
              Inl e \<Rightarrow> Inl (ErrPullImage (Reference refInfo) e)
            | Inr img \<Rightarrow> Inr (img, Some d)),
           logEv (EvRemotePull (overriddenRef cfg refInfo))
             (logEv (EvGet (overriddenRef cfg refInfo)) st))"
    by (simp add: resolveImage_def overriddenRef_def Let_def split: sum.splits)
next
  assume "\<not> isTarball (overriddenRef cfg refInfo) \<and>
    parseReference env (overriddenRef cfg refInfo) = Inr reference \<and>
    craneGet env (overriddenRef cfg refInfo) (getCount (fEvents st) (overriddenRef cfg refInfo)) = Inl e \<and>
    \<not> tooManyRequests e"
  then show "resolveImage env cfg refInfo st
        = daemonFallback env (overriddenRef cfg refInfo) reference
            (logEv (EvGet (overriddenRef cfg refInfo)) st)"
    by (simp add: resolveImage_def overriddenRef_def Let_def)
next
  assume a: "daemonFallback env ref reference st = (Inr (img, desc), st')"
  from daemonFallback_ok [OF a]
  show "desc = None" "daemonImage env reference Unbuffered = Inr img"
    "\<exists>evs. fEvents st' = fEvents st @ evs @ [EvInspect ref, EvDaemonImage reference Unbuffered]"
    by blast+
next
  assume "\<not> isTarball (overriddenRef cfg refInfo) \<and>
    parseReference env (overriddenRef cfg refInfo) = Inr reference \<and>
    craneGet env (overriddenRef cfg refInfo) (getCount (fEvents st) (overriddenRef cfg refInfo)) = Inl e \<and>
    tooManyRequests e"
  then show "resolveImage env cfg refInfo st
        = (Inl (ErrRateLimited e), logEv (EvGet (overriddenRef cfg refInfo)) st)"
    using resolveImage_rate_limited by blast
next
  assume "\<not> isTarball (overriddenRef cfg refInfo) \<and>
    parseReference env (overriddenRef cfg refInfo) = Inl pe"
  then show "resolveImage env cfg refInfo st = (Inl (ErrParseReference pe), st)"
    by (simp add: resolveImage_def overriddenRef_def Let_def)
qed

theorem resolution_order_witness:
  "prefix ''docker.io'' ''docker.io/nginx:1'' \<and>
   list_all (\<lambda>kv. \<not> prefix (fst kv) ''docker.io/nginx:1'') [(''ghcr.io'', ''mirror.lan'')] \<and>
   overriddenRef cfgOverride refNginx = ''mirror.lan/nginx:1'' \<and>
   list_all (\<lambda>kv. \<not> prefix (fst kv) ''reg.io/a:1'') [(''ghcr.io'', ''mirror.lan'')] \<and>
   applyOverrides [(''ghcr.io'', ''mirror.lan'')] ''reg.io/a:1'' ''reg.io/a:1'' = ''reg.io/a:1'' \<and>
   isTarball (overriddenRef cfgTar refTar) \<and>
   set (tarballRefs cfgTar) \<subseteq> {overriddenRef cfgTar refTar} \<and>
   resolveImage env0 cfgTar refTar fetchState0
     = (Inr (imgA, None), fetchState0\<lparr>fEvents := [EvLoad ''/images/app.tar'']\<rparr>) \<and>
   \<not> isTarball (overriddenRef cfgA refA) \<and>
   parseReference env0 (overriddenRef cfgA refA) = Inr ''reg.io/a:1'' \<and>
   craneGet env0 (overriddenRef cfgA refA) (getCount (fEvents fetchState0) (overriddenRef cfgA refA))
     = Inr manifestDesc \<and>
   resolveImage env0 cfgA refA fetchState0
     = (Inr (imgA, Some manifestDesc),
        fetchState0\<lparr>fEvents := [EvGet ''reg.io/a:1'', EvRemotePull ''reg.io/a:1'']\<rparr>) \<and>
   craneGet envDown (overriddenRef cfgA refA) (getCount (fEvents fetchState0) (overriddenRef cfgA refA))
     = Inl ''connection refused'' \<and>
   \<not> tooManyRequests ''connection refused'' \<and>
   resolveImage envDown cfgA refA fetchState0
     = (Inr (imgA, None),
        fetchState0\<lparr>fEvents := [EvGet ''reg.io/a:1'', EvDockerEndpoint, EvInspect ''reg.io/a:1'',
                                  EvDaemonImage ''reg.io/a:1'' Unbuffered],
                     dockerEndPointHost := ''unix:///var/run/docker.sock''\<rparr>) \<and>
   daemonImage envDown ''reg.io/a:1'' Unbuffered = Inr imgA \<and>
   craneGet envRateLimited (overriddenRef cfgA refA)
       (getCount (fEvents fetchState0) (overriddenRef cfgA refA)) = Inl msg429 \<and>
   tooManyRequests msg429 \<and>
   resolveImage envRateLimited cfgA refA fetchState0
     = (Inl (ErrRateLimited msg429), fetchState0\<lparr>fEvents := [EvGet ''reg.io/a:1'']\<rparr>) \<and>
   \<not> isTarball (overriddenRef cfgA refBad) \<and>
   parseReference envStrict (overriddenRef cfgA refBad) = Inl ''could not parse reference'' \<and>
   resolveImage envStrict cfgA refBad fetchState0
     = (Inl (ErrParseReference ''could not parse reference''), fetchState0)"
proof -
  let ?down = "fetchState0\<lparr>fEvents := [EvGet ''reg.io/a:1'', EvDockerEndpoint, EvInspect ''reg.io/a:1'',
                                  EvDaemonImage ''reg.io/a:1'' Unbuffered],
                     dockerEndPointHost := ''unix:///var/run/docker.sock''\<rparr>"
  have p1: "prefix ''docker.io'' ''docker.io/nginx:1'' \<and>
      list_all (\<lambda>kv. \<not> prefix (fst kv) ''docker.io/nginx:1'') [(''ghcr.io'', ''mirror.lan'')]"
    by simp
  have p2: "list_all (\<lambda>kv. \<not> prefix (fst kv) ''reg.io/a:1'') [(''ghcr.io'', ''mirror.lan'')]"
    by simp
  have ovA: "overriddenRef cfgA refA = ''reg.io/a:1''"
    by (simp add: overriddenRef_def cfgA_def refA_def)
  have ntA: "\<not> isTarball (overriddenRef cfgA refA)"
    unfolding ovA by (simp add: isTarball_def suffix_def)
  have tar: "isTarball (overriddenRef cfgTar refTar)"
    by (simp add: overriddenRef_def isTarball_def suffix_def cfgTar_def refTar_def)
  have ovT: "overriddenRef cfgTar refTar = ''/images/app.tar''"
    by (simp add: overriddenRef_def cfgTar_def refTar_def)
  have one: "set (tarballRefs cfgTar) \<subseteq> {overriddenRef cfgTar refTar}"
    by (simp add: tarballRefs_def overriddenRef_def isTarball_def suffix_def cfgTar_def refTar_def)
  have ovB: "overriddenRef cfgA refBad = ''reg.io/App:1''"
    by (simp add: overriddenRef_def cfgA_def refBad_def)
  have ntB: "\<not> isTarball (overriddenRef cfgA refBad)"
    unfolding ovB by (simp add: isTarball_def suffix_def)
  have prB: "parseReference envStrict (overriddenRef cfgA refBad) = Inl ''could not parse reference''"
    unfolding ovB by (simp add: envStrict_def)
  have pr: "parseReference env0 (overriddenRef cfgA refA) = Inr ''reg.io/a:1''"
    "parseReference envDown (overriddenRef cfgA refA) = Inr ''reg.io/a:1''"
    "parseReference envRateLimited (overriddenRef cfgA refA) = Inr ''reg.io/a:1''"
    unfolding ovA by (simp_all add: env0_def envDown_def envRateLimited_def)
  have g0: "craneGet env0 (overriddenRef cfgA refA)
      (getCount (fEvents fetchState0) (overriddenRef cfgA refA)) = Inr manifestDesc"
    by (simp add: env0_def)
  have gd: "craneGet envDown (overriddenRef cfgA refA)
      (getCount (fEvents fetchState0) (overriddenRef cfgA refA)) = Inl ''connection refused''"
    by (simp add: envDown_def)
  have gr: "craneGet envRateLimited (overriddenRef cfgA refA)
      (getCount (fEvents fetchState0) (overriddenRef cfgA refA)) = Inl msg429"
    by (simp add: envRateLimited_def)
  have ntm: "\<not> tooManyRequests ''connection refused''"
    by (simp add: tooManyRequests_def sublist_Cons_right)
  have tm: "tooManyRequests msg429"
    unfolding tooManyRequests_def msg429_def by (rule sublist_appendI)
  have fb: "daemonFallback envDown (overriddenRef cfgA refA) ''reg.io/a:1''
      (logEv (EvGet (overriddenRef cfgA refA)) fetchState0) = (Inr (imgA, None), ?down)"
    unfolding ovA
    by (simp add: daemonFallback_def getDockerEndpointHost_def logEv_def fetchState0_def
        envDown_def env0_def)
  have "applyOverrides ([] @ (''docker.io'', ''mirror.lan'') # [(''ghcr.io'', ''mirror.lan'')])
      ''docker.io/nginx:1'' ''docker.io/nginx:1'' = ''mirror.lan'' @ drop (length ''docker.io'') ''docker.io/nginx:1''"
    using resolution_order [where k = "''docker.io''" and r = "''docker.io/nginx:1''"
        and post = "[(''ghcr.io'', ''mirror.lan'')]" and pre = "[]" and v = "''mirror.lan''",
        THEN conjunct1] p1 by blast
  then have a: "overriddenRef cfgOverride refNginx = ''mirror.lan/nginx:1''"
    by (simp add: overriddenRef_def cfgOverride_def refNginx_def)
  have b: "applyOverrides [(''ghcr.io'', ''mirror.lan'')] ''reg.io/a:1'' ''reg.io/a:1'' = ''reg.io/a:1''"
    using resolution_order [where r = "''reg.io/a:1''" and ovs = "[(''ghcr.io'', ''mirror.lan'')]",
        THEN conjunct2, THEN conjunct1] p2 by blast
  have c: "resolveImage env0 cfgTar refTar fetchState0
     = (Inr (imgA, None), fetchState0\<lparr>fEvents := [EvLoad ''/images/app.tar'']\<rparr>)"
    using resolution_order [where cfg = cfgTar and refInfo = refTar and env = env0
        and st = fetchState0, THEN conjunct2, THEN conjunct2, THEN conjunct1] tar one
    unfolding ovT by (simp add: env0_def logEv_def fetchState0_def)
  have d: "resolveImage env0 cfgA refA fetchState0
     = (Inr (imgA, Some manifestDesc),
        fetchState0\<lparr>fEvents := [EvGet ''reg.io/a:1'', EvRemotePull ''reg.io/a:1'']\<rparr>)"
    using resolution_order [where cfg = cfgA and refInfo = refA and env = env0
        and st = fetchState0 and reference = "''reg.io/a:1''" and d = manifestDesc,
        THEN conjunct2, THEN conjunct2, THEN conjunct2, THEN conjunct1] ntA pr(1) g0
    unfolding ovA by (simp add: env0_def logEv_def fetchState0_def)
  have e: "resolveImage envDown cfgA refA fetchState0
     = daemonFallback envDown (overriddenRef cfgA refA) ''reg.io/a:1''
         (logEv (EvGet (overriddenRef cfgA refA)) fetchState0)"
    using resolution_order [where cfg = cfgA and refInfo = refA and env = envDown
        and st = fetchState0 and reference = "''reg.io/a:1''" and e = "''connection refused''",
        THEN conjunct2, THEN conjunct2, THEN conjunct2, THEN conjunct2, THEN conjunct1]
      ntA pr(2) gd ntm by blast
  have f: "daemonImage envDown ''reg.io/a:1'' Unbuffered = Inr imgA"
    using resolution_order [where env = envDown and ref = "overriddenRef cfgA refA"
        and reference = "''reg.io/a:1''"
        and st = "logEv (EvGet (overriddenRef cfgA refA)) fetchState0"
        and img = imgA and desc = None and st' = ?down,
        THEN conjunct2, THEN conjunct2, THEN conjunct2, THEN conjunct2, THEN conjunct2,
        THEN conjunct1] fb by blast
  have g: "resolveImage envRateLimited cfgA refA fetchState0
     = (Inl (ErrRateLimited msg429), fetchState0\<lparr>fEvents := [EvGet ''reg.io/a:1'']\<rparr>)"
    using resolution_order [where cfg = cfgA and refInfo = refA and env = envRateLimited
        and st = fetchState0 and reference = "''reg.io/a:1''" and e = msg429,
        THEN conjunct2, THEN conjunct2, THEN conjunct2, THEN conjunct2, THEN conjunct2,
        THEN conjunct2, THEN conjunct1] ntA pr(3) gr tm
    unfolding ovA by (simp add: logEv_def fetchState0_def)
  have h: "resolveImage envStrict cfgA refBad fetchState0
     = (Inl (ErrParseReference ''could not parse reference''), fetchState0)"
    using resolution_order [where cfg = cfgA and refInfo = refBad and env = envStrict
        and st = fetchState0 and pe = "''could not parse reference''",
        THEN conjunct2, THEN conjunct2, THEN conjunct2, THEN conjunct2, THEN conjunct2,
        THEN conjunct2, THEN conjunct2] ntB prB by blast
  from p1 p2 a b tar one c ntA pr(1) g0 d gd ntm e fb f gr tm g ntB prB h show ?thesis by simp
qed

text \<open>
  The claim as it was stated fails on a rate-limited registry: the daemon holds the image
  but is not asked for it. It fails too on a reference that does not parse: the remote
  descriptor is not fetched and the daemon, which holds the image, is not asked for it.
\<close>

theorem daemon_fallback_counterexample:
  "craneGet envRateLimited ''reg.io/b:2'' 0 = Inl msg429 \<and>
   daemonImage envRateLimited ''reg.io/b:2'' Unbuffered = Inr imgA \<and>
   resolveImage envRateLimited cfgA refB fetchState0
     = (Inl (ErrRateLimited msg429), fetchState0\<lparr>fEvents := [EvGet ''reg.io/b:2'']\<rparr>) \<and>
   parseReference envStrict ''reg.io/App:1'' = Inl ''could not parse reference'' \<and>
   daemonImage envStrict ''reg.io/App:1'' Unbuffered = Inr imgA \<and>
   resolveImage envStrict cfgA refBad fetchState0
     = (Inl (ErrParseReference ''could not parse reference''), fetchState0)"
proof -
  have tm: "tooManyRequests msg429"
    unfolding tooManyRequests_def msg429_def by (rule sublist_appendI)
  show ?thesis
    by (simp add: tm resolveImage_def isTarball_def suffix_def getCount_def logEv_def
        cfgA_def refB_def refBad_def envRateLimited_def envStrict_def env0_def fetchState0_def
        Let_def)
qed

end
